theory Spec2Isabelle
  imports Main
begin

section \<open>Strings\<close>

text \<open>
  A JavaScript string is modelled as a \<open>string\<close> whose characters are the code units
  0 to 255, the Latin-1 range of Unicode; strings with other code units are outside the
  type. On this range \<open>toLowerCase\<close> and \<open>trim\<close> are
  \<open>String.prototype.toLowerCase\<close> and \<open>String.prototype.trim\<close>: the letters that
  have a lowercase form are \<open>A\<close> to \<open>Z\<close> (65 to 90) and the accented capitals 192
  to 222 without the multiplication sign 215, and their lowercase form is 32 higher;
  the white space and line terminators are tab, line feed, vertical tab, form feed,
  carriage return (9 to 13), space (32) and the no-break space (160).
\<close>

definition lower_char :: "char \<Rightarrow> char" where
  \<comment> \<open>The letters concerned have bit 5 clear; setting it adds 32.\<close>
  "lower_char c =
     (let n = (of_char c :: nat)
      in if (65 \<le> n \<and> n \<le> 90) \<or> (192 \<le> n \<and> n \<le> 222 \<and> n \<noteq> 215)
         then (case c of Char b0 b1 b2 b3 b4 b5 b6 b7 \<Rightarrow> Char b0 b1 b2 b3 b4 True b6 b7)
         else c)"

definition toLowerCase :: "string \<Rightarrow> string" where
  "toLowerCase s = map lower_char s"

definition is_space :: "char \<Rightarrow> bool" where
  "is_space c = (let n = (of_char c :: nat) in (9 \<le> n \<and> n \<le> 13) \<or> n = 32 \<or> n = 160)"

definition trim :: "string \<Rightarrow> string" where
  "trim s = rev (dropWhile is_space (rev (dropWhile is_space s)))"

section \<open>Replies\<close>

text \<open>
  A reply is the status code set with \<open>reply.code\<close> (200 when the handler sets none)
  and the object that is sent, a list of keys and values in the order of the source.
\<close>

datatype json = JString string | JNumber int | JBool bool

record reply =
  status :: nat
  body :: "(string \<times> json) list"

definition flash :: "string \<Rightarrow> string \<Rightarrow> (string \<times> json) list" where
  "flash m t = [(''message'', JString m), (''type'', JString t)]"

text \<open>The \<open>message\<close> and the \<open>type\<close> of a reply, when they are strings.\<close>

definition message_of :: "reply \<Rightarrow> string option" where
  "message_of r = (case map_of (body r) ''message'' of Some (JString m) \<Rightarrow> Some m | _ \<Rightarrow> None)"

definition type_of :: "reply \<Rightarrow> string option" where
  "type_of r = (case map_of (body r) ''type'' of Some (JString t) \<Rightarrow> Some t | _ \<Rightarrow> None)"

text \<open>What is thrown inside a handler: by the ORM, or by the runtime.\<close>

datatype err = RecordNotFound | PrismaClientError string | TypeError string

text \<open>
  The error object that Fastify hands to an error handler: a failed schema validation
  (\<open>error.validation\<close> is set) with its message, or an error thrown by a handler.
\<close>

datatype fastify_error = ValidationError string | HandlerError err

fun validation :: "fastify_error \<Rightarrow> bool" where
  "validation (ValidationError m) = True"
| "validation (HandlerError e) = False"

text \<open>
  An endpoint answers with a reply of the route's own code, or hands the error to
  \<open>fastify.errorHandler\<close>, the error handler of the framework.
\<close>

datatype outcome = Sent reply | Delegated fastify_error

section \<open>The user record\<close>

type_synonym user_id = string

record profile_ui =
  isLocked :: bool
  showAbout :: bool
  showCerts :: bool
  showDonation :: bool
  showHeatMap :: bool
  showLocation :: bool
  showName :: bool
  showPoints :: bool
  showPortfolio :: bool
  showTimeLine :: bool

record portfolio_item =
  id_pf :: string
  title :: string
  url :: string
  description :: string
  image_pf :: string

record user =
  uid :: user_id
  email :: string
  username :: string
  usernameDisplay :: "string option"
  profileUI :: profile_ui
  theme :: string
  website :: "string option"
  twitter :: "string option"
  githubProfile :: "string option"
  linkedin :: "string option"
  about :: string
  name :: string
  location :: string
  picture :: string
  keyboardShortcuts :: bool
  sendQuincyEmail :: bool
  isHonest :: bool
  acceptedPrivacyTerms :: bool
  portfolio :: "portfolio_item list"

section \<open>The ORM\<close>

text \<open>
  The data store is the list of user documents. Every call of the ORM is written to
  \<open>trace\<close> with the error it threw, if any. A call can fail for reasons outside the
  program (the store is unreachable): \<open>faults\<close> holds, for the calls to come, the error
  each one throws, \<open>None\<close> for a call that goes through; an empty list means no fault.
\<close>

datatype orm_call =
    FindUniqueOrThrow user_id
  | FindFirstOrThrow user_id
  | Count string
  | Update user_id

record server =
  users :: "user list"
  error_log :: "err list"
  trace :: "(orm_call \<times> err option) list"
  faults :: "err option list"

definition take_fault :: "server \<Rightarrow> err option \<times> server" where
  "take_fault s = (case faults s of [] \<Rightarrow> (None, s) | f # fs \<Rightarrow> (f, s\<lparr>faults := fs\<rparr>))"

definition record_call :: "orm_call \<Rightarrow> err option \<Rightarrow> server \<Rightarrow> server" where
  "record_call c r s = s\<lparr>trace := trace s @ [(c, r)]\<rparr>"

definition find_user :: "user_id \<Rightarrow> user list \<Rightarrow> user option" where
  "find_user i us = find (\<lambda>u. uid u = i) us"

fun update_first :: "('a \<Rightarrow> bool) \<Rightarrow> ('a \<Rightarrow> 'a) \<Rightarrow> 'a list \<Rightarrow> 'a list" where
  "update_first P f [] = []"
| "update_first P f (x # xs) = (if P x then f x # xs else x # update_first P f xs)"

definition findUniqueOrThrow :: "user_id \<Rightarrow> server \<Rightarrow> (err + user) \<times> server" where
  "findUniqueOrThrow i s =
     (case take_fault s of
        (Some e, s') \<Rightarrow> (Inl e, record_call (FindUniqueOrThrow i) (Some e) s')
      | (None, s') \<Rightarrow>
          (case find_user i (users s') of
             None \<Rightarrow> (Inl RecordNotFound, record_call (FindUniqueOrThrow i) (Some RecordNotFound) s')
           | Some u \<Rightarrow> (Inr u, record_call (FindUniqueOrThrow i) None s')))"

definition findFirstOrThrow :: "user_id \<Rightarrow> server \<Rightarrow> (err + user) \<times> server" where
  "findFirstOrThrow i s =
     (case take_fault s of
        (Some e, s') \<Rightarrow> (Inl e, record_call (FindFirstOrThrow i) (Some e) s')
      | (None, s') \<Rightarrow>
          (case find_user i (users s') of
             None \<Rightarrow> (Inl RecordNotFound, record_call (FindFirstOrThrow i) (Some RecordNotFound) s')
           | Some u \<Rightarrow> (Inr u, record_call (FindFirstOrThrow i) None s')))"

definition count_username :: "string \<Rightarrow> server \<Rightarrow> (err + nat) \<times> server" where
  "count_username n s =
     (case take_fault s of
        (Some e, s') \<Rightarrow> (Inl e, record_call (Count n) (Some e) s')
      | (None, s') \<Rightarrow>
          (Inr (length (filter (\<lambda>u. username u = n) (users s'))), record_call (Count n) None s'))"

text \<open>
  \<open>prisma.user.update({ where: { id }, data })\<close>: \<open>f\<close> is the change that \<open>data\<close>
  describes. The call throws when no document has the id.
\<close>

definition prisma_update :: "user_id \<Rightarrow> (user \<Rightarrow> user) \<Rightarrow> server \<Rightarrow> (err + user) \<times> server" where
  "prisma_update i f s =
     (case take_fault s of
        (Some e, s') \<Rightarrow> (Inl e, record_call (Update i) (Some e) s')
      | (None, s') \<Rightarrow>
          (case find_user i (users s') of
             None \<Rightarrow> (Inl RecordNotFound, record_call (Update i) (Some RecordNotFound) s')
           | Some u \<Rightarrow>
               (Inr (f u),
                record_call (Update i) None
                  (s'\<lparr>users := update_first (\<lambda>u. uid u = i) f (users s')\<rparr>))))"

text \<open>\<open>fastify.log.error(err)\<close>\<close>

definition log_error :: "err \<Rightarrow> server \<Rightarrow> server" where
  "log_error e s = s\<lparr>error_log := error_log s @ [e]\<rparr>"

section \<open>Requests and what the routes import\<close>

text \<open>
  The functions and constants that the module imports and that are not part of it:
  \<open>isProfane\<close> (no-profanity), \<open>isValidUsername\<close> (shared/utils/validate),
  \<open>blocklistedUsernames\<close> (shared/config/constants), the clock \<open>Date.now()\<close>, the
  \<open>Intl.DateTimeFormat\<close> formatter, and the \<open>URL\<close> constructor:
  \<open>url_protocol p\<close> is \<open>Some (new URL(p).protocol)\<close>, and \<open>None\<close> when the
  constructor throws.
\<close>

record username_validation =
  valid :: bool
  error :: string

record deps =
  isProfane :: "string \<Rightarrow> bool"
  isValidUsername :: "string \<Rightarrow> username_validation"
  blocklistedUsernames :: "string list"
  url_protocol :: "string \<Rightarrow> string option"
  now :: int
  formatLimit :: "int option \<Rightarrow> string"

text \<open>
  The request bodies, as the handlers read them; the schemas that Fastify validates
  them against are in the module \<open>schemas\<close>, and the outcome of that validation is
  part of the request. A field that may be missing (\<open>undefined\<close>) is an option. The
  body of /update-my-username holds \<open>None\<close> when \<open>req.body.username\<close> is not a
  string, which a request that failed validation may bring to the handler.
\<close>

record socials_body =
  req_website :: "string option"
  req_twitter :: "string option"
  req_githubProfile :: "string option"
  req_linkedin :: "string option"

record about_body =
  req_about :: string
  req_name :: string
  req_location :: string
  req_picture :: "string option"

record portfolio_body_item =
  req_id :: "string option"
  req_title :: "string option"
  req_url :: "string option"
  req_description :: "string option"
  req_image :: "string option"

datatype payload =
    ProfileUIBody profile_ui
  | EmailBody string
  | ThemeBody string
  | SocialsBody socials_body
  | UsernameBody "string option"
  | AboutBody about_body
  | KeyboardShortcutsBody bool
  | QuincyEmailBody bool
  | HonestyBody bool
  | PrivacyTermsBody bool
  | PortfolioBody "portfolio_body_item list"

text \<open>
  \<open>session_user_id\<close> is \<open>req.session.user.id\<close>; \<open>validationError\<close> is the message
  of the schema validation that Fastify ran on the body, \<open>None\<close> when the body passed.
\<close>

record request =
  session_user_id :: user_id
  validationError :: "string option"
  payload :: payload

section \<open>The module\<close>

text \<open>
  \<open>let fiveMinuteLimit: Date\<close> is declared at the top of the module without a value,
  and nothing in the module assigns it: it is undefined (\<open>None\<close>) throughout.
\<close>

definition fiveMinuteLimit :: "int option" where
  "fiveMinuteLimit = None"

text \<open>
  \<open>isPast\<close> of date-fns: the time of the date is before \<open>Date.now()\<close>. An
  undefined date is an invalid date, and its time, not a number, is before nothing.
\<close>

definition isPast :: "int \<Rightarrow> int option \<Rightarrow> bool" where
  "isPast clock date = (case date of None \<Rightarrow> False | Some t \<Rightarrow> t < clock)"

definition isPictureWithProtocol :: "deps \<Rightarrow> string option \<Rightarrow> bool" where
  "isPictureWithProtocol d picture_arg =
     (case picture_arg of
        None \<Rightarrow> False
      | Some p \<Rightarrow>
          if p = [] then False
          else (case url_protocol d p of
                  None \<Rightarrow> False
                | Some protocol \<Rightarrow> protocol = ''http:'' \<or> protocol = ''https:''))"

definition updateErrorHandler :: "fastify_error \<Rightarrow> outcome" where
  "updateErrorHandler error_arg =
     (if validation error_arg
      then Sent \<lparr>status = 400, body = flash ''flash.wrong-updating'' ''danger''\<rparr>
      else Delegated error_arg)"

text \<open>The catch branch that every handler has: log the error, answer 500.\<close>

definition caught :: "err \<Rightarrow> server \<Rightarrow> reply \<times> server" where
  "caught e s =
     (\<lparr>status = 500, body = flash ''flash.wrong-updating'' ''danger''\<rparr>, log_error e s)"

definition updateMyProfileUI :: "request \<Rightarrow> profile_ui \<Rightarrow> server \<Rightarrow> reply \<times> server" where
  "updateMyProfileUI req b s =
     (case prisma_update (session_user_id req)
             (\<lambda>u. u\<lparr>profileUI :=
                \<lparr>isLocked = isLocked b, showAbout = showAbout b, showCerts = showCerts b,
                 showDonation = showDonation b, showHeatMap = showHeatMap b,
                 showLocation = showLocation b, showName = showName b,
                 showPoints = showPoints b, showPortfolio = showPortfolio b,
                 showTimeLine = showTimeLine b\<rparr>\<rparr>) s of
        (Inr _, s') \<Rightarrow> (\<lparr>status = 200, body = flash ''flash.privacy-updated'' ''success''\<rparr>, s')
      | (Inl e, s') \<Rightarrow> caught e s')"

text \<open>
  /update-my-email: what the handler returns. The read of the stored email is outside
  the try block, so what it throws leaves the handler.
\<close>

definition updateMyEmail :: "deps \<Rightarrow> request \<Rightarrow> string \<Rightarrow> server \<Rightarrow> (err + reply) \<times> server" where
  "updateMyEmail d req body_email s =
     (case validationError req of
        Some _ \<Rightarrow> (Inr \<lparr>status = 400, body = flash ''Email format is invalid'' ''danger''\<rparr>, s)
      | None \<Rightarrow>
          (case findUniqueOrThrow (session_user_id req) s of
             (Inl e, s1) \<Rightarrow> (Inl e, s1)
           | (Inr userEmail, s1) \<Rightarrow>
               (let newEmail = toLowerCase body_email;
                    currentEmailFormated = toLowerCase (email userEmail);
                    isSameEmail = (newEmail = currentEmailFormated)
                in if isSameEmail
                   then (Inr \<lparr>status = 400,
                              body = [(''type'', JString ''info''),
                                      (''message'', JString (newEmail
                                         @ '' is already associated with this account.''
                                         @ [CHR 0x0A]
                                         @ ''You can update a new email address instead.''))]\<rparr>, s1)
                   else if \<not> isPast (now d) fiveMinuteLimit
                   then (let formattedLimitedTime = formatLimit d fiveMinuteLimit
                         in (Inr \<lparr>status = 200,
                                  body = [(''type'', JString ''info''),
                                          (''message'', JString ([CHR 0x0A]
                                             @ ''        We have already sent an email confirmation request to ''
                                             @ newEmail @ ''.'' @ [CHR 0x0A]
                                             @ ''        '' @ formattedLimitedTime))]\<rparr>, s1))
                   else (case prisma_update (session_user_id req) (\<lambda>u. u\<lparr>email := newEmail\<rparr>) s1 of
                           (Inr _, s2) \<Rightarrow>
                             (Inr \<lparr>status = 200, body = flash ''flash.email-valid'' ''success''\<rparr>, s2)
                         | (Inl e, s2) \<Rightarrow> (case caught e s2 of (r, s3) \<Rightarrow> (Inr r, s3))))))"

definition updateMyTheme :: "request \<Rightarrow> string \<Rightarrow> server \<Rightarrow> reply \<times> server" where
  "updateMyTheme req body_theme s =
     (case prisma_update (session_user_id req) (\<lambda>u. u\<lparr>theme := body_theme\<rparr>) s of
        (Inr _, s') \<Rightarrow> (\<lparr>status = 200, body = flash ''flash.updated-themes'' ''success''\<rparr>, s')
      | (Inl e, s') \<Rightarrow> caught e s')"

text \<open>A field of \<open>data\<close> that is \<open>undefined\<close> is left as it is by the ORM.\<close>

definition set_unless_undefined :: "'a option \<Rightarrow> 'a option \<Rightarrow> 'a option" where
  "set_unless_undefined new old = (case new of None \<Rightarrow> old | Some v \<Rightarrow> Some v)"

definition updateMySocials :: "request \<Rightarrow> socials_body \<Rightarrow> server \<Rightarrow> reply \<times> server" where
  "updateMySocials req b s =
     (case prisma_update (session_user_id req)
             (\<lambda>u. u\<lparr>website := set_unless_undefined (req_website b) (website u),
                    twitter := set_unless_undefined (req_twitter b) (twitter u),
                    githubProfile := set_unless_undefined (req_githubProfile b) (githubProfile u),
                    linkedin := set_unless_undefined (req_linkedin b) (linkedin u)\<rparr>) s of
        (Inr _, s') \<Rightarrow> (\<lparr>status = 200, body = flash ''flash.updated-socials'' ''success''\<rparr>, s')
      | (Inl e, s') \<Rightarrow> caught e s')"

text \<open>
  /update-my-username. The whole handler is inside the try block, so every throw ends in
  the catch branch; \<open>updateMyUsername_try\<close> is the try block.
\<close>

definition updateMyUsername_try ::
    "deps \<Rightarrow> request \<Rightarrow> string option \<Rightarrow> server \<Rightarrow> (err + reply) \<times> server" where
  "updateMyUsername_try d req body_username s =
     (case findFirstOrThrow (session_user_id req) s of
        (Inl e, s1) \<Rightarrow> (Inl e, s1)
      | (Inr user, s1) \<Rightarrow>
          (case body_username of
             None \<Rightarrow> (Inl (TypeError ''req.body.username.trim is not a function''), s1)
           | Some submitted \<Rightarrow>
               (let newUsernameDisplay = trim submitted;
                    oldUsernameDisplay = map_option trim (usernameDisplay user);
                    newUsername = toLowerCase newUsernameDisplay;
                    oldUsername = toLowerCase (username user);
                    usernameUnchanged =
                      (newUsername = oldUsername \<and> Some newUsernameDisplay = oldUsernameDisplay)
                in if usernameUnchanged
                   then (Inr \<lparr>status = 400, body = flash ''flash.username-used'' ''info''\<rparr>, s1)
                   else (case validationError req of
                     Some m \<Rightarrow> (Inr \<lparr>status = 400, body = flash m ''info''\<rparr>, s1)
                   | None \<Rightarrow>
                       (let validation = isValidUsername d newUsername
                        in if \<not> valid validation
                           then (Inr \<lparr>status = 400,
                                      body = flash (''Username '' @ newUsername @ '' '' @ error validation)
                                               ''info''\<rparr>, s1)
                           else
                             (let isUserNameProfane = isProfane d newUsername;
                                  onBlocklist = (newUsername \<in> set (blocklistedUsernames d))
                              in case (if newUsername = oldUsername then (Inr 0, s1)
                                       else count_username newUsername s1) of
                                   (Inl e, s2) \<Rightarrow> (Inl e, s2)
                                 | (Inr usernameTaken, s2) \<Rightarrow>
                                     if usernameTaken \<noteq> 0 \<or> isUserNameProfane \<or> onBlocklist
                                     then (Inr \<lparr>status = 400,
                                                body = flash ''flash.username-taken'' ''info''\<rparr>, s2)
                                     else (case prisma_update (session_user_id req)
                                                  (\<lambda>u. u\<lparr>username := newUsername,
                                                         usernameDisplay := Some newUsernameDisplay\<rparr>) s2 of
                                             (Inl e, s3) \<Rightarrow> (Inl e, s3)
                                           | (Inr _, s3) \<Rightarrow>
                                               (Inr \<lparr>status = 200,
                                                     body = [(''message'', JString ''flash.username-updated''),
                                                             (''type'', JString ''success''),
                                                             (''username'', JString newUsernameDisplay)]\<rparr>,
                                                s3))))))))"

definition updateMyUsername :: "deps \<Rightarrow> request \<Rightarrow> string option \<Rightarrow> server \<Rightarrow> reply \<times> server" where
  "updateMyUsername d req body_username s =
     (case updateMyUsername_try d req body_username s of
        (Inr r, s') \<Rightarrow> (r, s')
      | (Inl e, s') \<Rightarrow> caught e s')"

definition updateMyAbout :: "deps \<Rightarrow> request \<Rightarrow> about_body \<Rightarrow> server \<Rightarrow> reply \<times> server" where
  "updateMyAbout d req b s =
     (let hasProtocol = isPictureWithProtocol d (req_picture b)
      in case prisma_update (session_user_id req)
                (\<lambda>u. let u' = u\<lparr>about := req_about b, name := req_name b,
                                  location := req_location b\<rparr>
                      in if hasProtocol
                         then (case req_picture b of Some p \<Rightarrow> u'\<lparr>picture := p\<rparr> | None \<Rightarrow> u')
                         else u') s of
           (Inr _, s') \<Rightarrow> (\<lparr>status = 200, body = flash ''flash.updated-about-me'' ''success''\<rparr>, s')
         | (Inl e, s') \<Rightarrow> caught e s')"

definition updateMyKeyboardShortcuts :: "request \<Rightarrow> bool \<Rightarrow> server \<Rightarrow> reply \<times> server" where
  "updateMyKeyboardShortcuts req b s =
     (case prisma_update (session_user_id req) (\<lambda>u. u\<lparr>keyboardShortcuts := b\<rparr>) s of
        (Inr _, s') \<Rightarrow>
          (\<lparr>status = 200, body = flash ''flash.keyboard-shortcut-updated'' ''success''\<rparr>, s')
      | (Inl e, s') \<Rightarrow> caught e s')"

definition updateMyQuincyEmail :: "request \<Rightarrow> bool \<Rightarrow> server \<Rightarrow> reply \<times> server" where
  "updateMyQuincyEmail req b s =
     (case prisma_update (session_user_id req) (\<lambda>u. u\<lparr>sendQuincyEmail := b\<rparr>) s of
        (Inr _, s') \<Rightarrow>
          (\<lparr>status = 200, body = flash ''flash.subscribe-to-quincy-updated'' ''success''\<rparr>, s')
      | (Inl e, s') \<Rightarrow> caught e s')"

definition updateMyHonesty :: "request \<Rightarrow> bool \<Rightarrow> server \<Rightarrow> reply \<times> server" where
  "updateMyHonesty req b s =
     (case prisma_update (session_user_id req) (\<lambda>u. u\<lparr>isHonest := b\<rparr>) s of
        (Inr _, s') \<Rightarrow> (\<lparr>status = 200, body = flash ''buttons.accepted-honesty'' ''success''\<rparr>, s')
      | (Inl e, s') \<Rightarrow> caught e s')"

definition updatePrivacyTerms :: "request \<Rightarrow> bool \<Rightarrow> server \<Rightarrow> reply \<times> server" where
  "updatePrivacyTerms req quincyEmails s =
     (case prisma_update (session_user_id req)
             (\<lambda>u. u\<lparr>acceptedPrivacyTerms := True, sendQuincyEmail := quincyEmails\<rparr>) s of
        (Inr _, s') \<Rightarrow> (\<lparr>status = 200, body = flash ''flash.privacy-updated'' ''success''\<rparr>, s')
      | (Inl e, s') \<Rightarrow> caught e s')"

text \<open>\<open>x ? x : ''\<close>: a missing or empty string becomes the empty string.\<close>

definition or_empty :: "string option \<Rightarrow> string" where
  "or_empty x = (case x of None \<Rightarrow> [] | Some v \<Rightarrow> if v = [] then [] else v)"

definition updateMyPortfolio :: "request \<Rightarrow> portfolio_body_item list \<Rightarrow> server \<Rightarrow> reply \<times> server" where
  "updateMyPortfolio req b s =
     (let portfolio_new =
            map (\<lambda>item. \<lparr>id_pf = or_empty (req_id item), title = or_empty (req_title item),
                         url = or_empty (req_url item),
                         description = or_empty (req_description item),
                         image_pf = or_empty (req_image item)\<rparr>) b
      in case prisma_update (session_user_id req) (\<lambda>u. u\<lparr>portfolio := portfolio_new\<rparr>) s of
           (Inr _, s') \<Rightarrow>
             (\<lparr>status = 200, body = flash ''flash.portfolio-item-updated'' ''success''\<rparr>, s')
         | (Inl e, s') \<Rightarrow> caught e s')"

section \<open>The routes\<close>

datatype endpoint =
    UpdateMyProfileUI | UpdateMyEmail | UpdateMyTheme | UpdateMySocials | UpdateMyUsername
  | UpdateMyAbout | UpdateMyKeyboardShortcuts | UpdateMyQuincyEmail | UpdateMyHonesty
  | UpdatePrivacyTerms | UpdateMyPortfolio

fun endpoint_of :: "payload \<Rightarrow> endpoint" where
  "endpoint_of (ProfileUIBody b) = UpdateMyProfileUI"
| "endpoint_of (EmailBody b) = UpdateMyEmail"
| "endpoint_of (ThemeBody b) = UpdateMyTheme"
| "endpoint_of (SocialsBody b) = UpdateMySocials"
| "endpoint_of (UsernameBody b) = UpdateMyUsername"
| "endpoint_of (AboutBody b) = UpdateMyAbout"
| "endpoint_of (KeyboardShortcutsBody b) = UpdateMyKeyboardShortcuts"
| "endpoint_of (QuincyEmailBody b) = UpdateMyQuincyEmail"
| "endpoint_of (HonestyBody b) = UpdateMyHonesty"
| "endpoint_of (PrivacyTermsBody b) = UpdatePrivacyTerms"
| "endpoint_of (PortfolioBody b) = UpdateMyPortfolio"

text \<open>
  The response schema of /update-my-email, which the route gives inline. Fastify writes
  what the handler returns with the schema of the reply's status: a property that the
  schema makes a literal is written as that literal, a property that it makes a string
  as the string returned, in the order of the schema. So a reply with status 200 goes
  out as \<open>{ message: 'flash.email-valid', type: 'success' }\<close> and one with status 500
  as \<open>{ message: 'flash.wrong-updating', type: 'danger' }\<close>, whatever was returned;
  with status 400 the message and a type that is danger or info go out as returned,
  and with status 204 the message and the type info.
\<close>

definition email_response_schema :: "reply \<Rightarrow> reply" where
  "email_response_schema r =
     (if status r = 200 then r\<lparr>body := flash ''flash.email-valid'' ''success''\<rparr>
      else if status r = 500 then r\<lparr>body := flash ''flash.wrong-updating'' ''danger''\<rparr>
      else if status r = 400
      then (case (message_of r, type_of r) of
              (Some m, Some t) \<Rightarrow>
                if t = ''danger'' \<or> t = ''info'' then r\<lparr>body := flash m t\<rparr> else r
            | _ \<Rightarrow> r)
      else if status r = 204
      then (case message_of r of Some m \<Rightarrow> r\<lparr>body := flash m ''info''\<rparr> | None \<Rightarrow> r)
      else r)"

text \<open>
  The options each route is registered with: \<open>attachValidation\<close>, whether
  \<open>errorHandler\<close> is \<open>updateErrorHandler\<close>, and what the response schema does to
  a reply. The schemas of the other routes are in the module \<open>schemas\<close>; the literals
  that their handlers return are typed against them, and the reply is taken as returned.
\<close>

record route_options =
  attachValidation :: bool
  errorHandler :: "(fastify_error \<Rightarrow> outcome) option"
  response_schema :: "reply \<Rightarrow> reply"

fun options_of :: "endpoint \<Rightarrow> route_options" where
  "options_of UpdateMyEmail =
     \<lparr>attachValidation = True, errorHandler = None, response_schema = email_response_schema\<rparr>"
| "options_of UpdateMyUsername =
     \<lparr>attachValidation = True, errorHandler = None, response_schema = (\<lambda>r. r)\<rparr>"
| "options_of UpdateMyAbout =
     \<lparr>attachValidation = False, errorHandler = None, response_schema = (\<lambda>r. r)\<rparr>"
| "options_of ep =
     \<lparr>attachValidation = False, errorHandler = Some updateErrorHandler,
      response_schema = (\<lambda>r. r)\<rparr>"

text \<open>The handler registered for the route that the request is sent to.\<close>

fun handler :: "deps \<Rightarrow> request \<Rightarrow> payload \<Rightarrow> server \<Rightarrow> (err + reply) \<times> server" where
  "handler d req (ProfileUIBody b) s = (case updateMyProfileUI req b s of (r, s') \<Rightarrow> (Inr r, s'))"
| "handler d req (EmailBody b) s = updateMyEmail d req b s"
| "handler d req (ThemeBody b) s = (case updateMyTheme req b s of (r, s') \<Rightarrow> (Inr r, s'))"
| "handler d req (SocialsBody b) s = (case updateMySocials req b s of (r, s') \<Rightarrow> (Inr r, s'))"
| "handler d req (UsernameBody b) s = (case updateMyUsername d req b s of (r, s') \<Rightarrow> (Inr r, s'))"
| "handler d req (AboutBody b) s = (case updateMyAbout d req b s of (r, s') \<Rightarrow> (Inr r, s'))"
| "handler d req (KeyboardShortcutsBody b) s =
     (case updateMyKeyboardShortcuts req b s of (r, s') \<Rightarrow> (Inr r, s'))"
| "handler d req (QuincyEmailBody b) s =
     (case updateMyQuincyEmail req b s of (r, s') \<Rightarrow> (Inr r, s'))"
| "handler d req (HonestyBody b) s = (case updateMyHonesty req b s of (r, s') \<Rightarrow> (Inr r, s'))"
| "handler d req (PrivacyTermsBody b) s =
     (case updatePrivacyTerms req b s of (r, s') \<Rightarrow> (Inr r, s'))"
| "handler d req (PortfolioBody b) s =
     (case updateMyPortfolio req b s of (r, s') \<Rightarrow> (Inr r, s'))"

text \<open>
  How Fastify runs a route. The two \<open>onRequest\<close> hooks, \<open>csrfProtection\<close> and
  \<open>authenticateSession\<close>, come first; a request here is one that passed both, so it
  has a session user. A body that fails the schema is not given to the handler
  unless the route attaches the validation error to the request: the error goes to the
  route's error handler, and to \<open>fastify.errorHandler\<close> when the route has none. What
  a handler throws takes the same way, and what it returns is sent through the response
  schema. \<open>fastify.errorHandler\<close> is the framework's; what it replies is not part of
  the model.
\<close>

definition route_error :: "route_options \<Rightarrow> fastify_error \<Rightarrow> outcome" where
  "route_error opts e = (case errorHandler opts of Some h \<Rightarrow> h e | None \<Rightarrow> Delegated e)"

definition run_handler :: "deps \<Rightarrow> request \<Rightarrow> server \<Rightarrow> outcome \<times> server" where
  "run_handler d req s =
     (case handler d req (payload req) s of
        (Inr r, s') \<Rightarrow> (Sent (response_schema (options_of (endpoint_of (payload req))) r), s')
      | (Inl e, s') \<Rightarrow> (route_error (options_of (endpoint_of (payload req))) (HandlerError e), s'))"

definition handle_request :: "deps \<Rightarrow> request \<Rightarrow> server \<Rightarrow> outcome \<times> server" where
  "handle_request d req s =
     (let opts = options_of (endpoint_of (payload req))
      in case validationError req of
           None \<Rightarrow> run_handler d req s
         | Some m \<Rightarrow>
             if attachValidation opts then run_handler d req s
             else (route_error opts (ValidationError m), s))"

section \<open>Reading a reply\<close>

text \<open>An object with a string \<open>message\<close> and a \<open>type\<close> that is success, danger or info.\<close>

definition flash_shaped :: "reply \<Rightarrow> bool" where
  "flash_shaped r =
     ((case message_of r of Some m \<Rightarrow> True | None \<Rightarrow> False) \<and>
      (case type_of r of
         Some t \<Rightarrow> t = ''success'' \<or> t = ''danger'' \<or> t = ''info''
       | None \<Rightarrow> False))"

text \<open>The translation keys that the module's replies use.\<close>

definition message_keys :: "string list" where
  "message_keys =
     [''flash.wrong-updating'', ''flash.privacy-updated'', ''flash.email-valid'',
      ''flash.updated-themes'', ''flash.updated-socials'', ''flash.username-used'',
      ''flash.username-taken'', ''flash.username-updated'', ''flash.updated-about-me'',
      ''flash.keyboard-shortcut-updated'', ''flash.subscribe-to-quincy-updated'',
      ''buttons.accepted-honesty'', ''flash.portfolio-item-updated'']"

text \<open>The two messages that /update-my-email builds from the submitted email.\<close>

definition same_email_message :: "string \<Rightarrow> string" where
  "same_email_message newEmail =
     newEmail @ '' is already associated with this account.'' @ [CHR 0x0A]
       @ ''You can update a new email address instead.''"

definition limit_message :: "string \<Rightarrow> string \<Rightarrow> string" where
  "limit_message newEmail formattedLimitedTime =
     [CHR 0x0A] @ ''        We have already sent an email confirmation request to ''
       @ newEmail @ ''.'' @ [CHR 0x0A] @ ''        '' @ formattedLimitedTime"

text \<open>The calls of the ORM between two states, in order.\<close>

definition new_calls :: "server \<Rightarrow> server \<Rightarrow> (orm_call \<times> err option) list" where
  "new_calls s s' = drop (length (trace s)) (trace s')"

section \<open>The locale tests\<close>

text \<open>
  \<open>availableLangs.client\<close> and the keys of the enums \<open>LangNames\<close> and \<open>LangCodes\<close>
  come from config/i18n, the directory from \<open>__dirname\<close>. A test is its name and the
  check that its \<open>expect\<close> makes.
\<close>

record i18n =
  availableLangs_client :: "string list"
  LangNames_keys :: "string list"
  LangCodes_keys :: "string list"

definition filesThatShouldExist :: "string list" where
  "filesThatShouldExist =
     [''translations.json'', ''motivation.json'', ''intro.json'', ''meta-tags.json'',
      ''links.json'']"

datatype check =
    ExistsSync string
  | KeysInclude "string list" string

text \<open>
  \<open>expect(fs.existsSync(p)).toBeTruthy()\<close>, and
  \<open>expect(keys.map(langCode => langCode.toLowerCase()).includes(lang)).toBe(true)\<close>.
\<close>

fun passes :: "(string \<Rightarrow> bool) \<Rightarrow> check \<Rightarrow> bool" where
  "passes existsSync (ExistsSync p) = existsSync p"
| "passes existsSync (KeysInclude keys lang) = (lang \<in> set (map toLowerCase keys))"

definition lang_tests :: "string \<Rightarrow> i18n \<Rightarrow> string \<Rightarrow> (string \<times> check) list" where
  "lang_tests path cfg lang =
     map (\<lambda>file. (file @ '' file exists'', ExistsSync (path @ ''/'' @ lang @ ''/'' @ file)))
       filesThatShouldExist
     @ [(''has an entry in the langDisplayNames enum'', KeysInclude (LangNames_keys cfg) lang),
        (''has an entry in the langCodes enum'', KeysInclude (LangCodes_keys cfg) lang)]"

definition locale_tests :: "string \<Rightarrow> i18n \<Rightarrow> (string \<times> (string \<times> check) list) list" where
  "locale_tests dirname cfg =
     map (\<lambda>lang. (''-- '' @ lang @ '' --'', lang_tests (dirname @ ''/locales'') cfg lang))
       (availableLangs_client cfg)"

text \<open>Two strings that are equal when case is ignored.\<close>

definition same_ignoring_case :: "string \<Rightarrow> string \<Rightarrow> bool" where
  "same_ignoring_case a b = (toLowerCase a = toLowerCase b)"

section \<open>The markdown formatter\<close>

text \<open>
  tools/formatter/translation-annotation/utils configures a unified processor. A
  processor is the list of the plugins it was given, in order. The options of
  remark-stringify are \<open>fences\<close>, \<open>emphasis\<close> and \<open>handlers\<close>, the handlers that
  replace the default one of a node type.
\<close>

datatype mdast = Node (node_type: string) (node_value: string) (children: "mdast list")

record md_context =
  ctx_fences :: bool
  ctx_emphasis :: string

text \<open>
  A handler renders a node; it is given the context and the renderings of the node's
  children.
\<close>

type_synonym md_handler = "md_context \<Rightarrow> mdast \<Rightarrow> string list \<Rightarrow> string"

record stringify_options =
  fences :: bool
  emphasis :: string
  handlers :: "(string \<times> md_handler) list"

datatype plugin = RemarkParse | TableAndStrikethrough | RemarkStringify stringify_options

type_synonym processor = "plugin list"

text \<open>
  What the libraries and the table-and-strikethrough plugin (of
  tools/challenge-md-parser) bring: the parser that a list of plugins sets up, the
  table of default handlers of mdast-util-to-markdown/lib/handle, by node type, and the
  handlers that a list of plugins registers as extensions of the renderer.
\<close>

record md_lib =
  md_parse :: "plugin list \<Rightarrow> string \<Rightarrow> mdast"
  lib_handle :: "string \<Rightarrow> md_handler"
  extension_handlers :: "plugin list \<Rightarrow> (string \<times> md_handler) list"

definition notranslateStart :: string where
  "notranslateStart = ''<notranslate>''"

definition notranslateEnd :: string where
  "notranslateEnd = ''</notranslate>''"

text \<open>\<open>inlineCode\<close> is the entry of that name in the table of default handlers.\<close>

definition inlineCode :: "md_lib \<Rightarrow> md_handler" where
  "inlineCode lib = lib_handle lib ''inlineCode''"

definition wrapInlineCode :: "md_lib \<Rightarrow> md_handler" where
  "wrapInlineCode lib = (\<lambda>ctx node kids. notranslateStart @ inlineCode lib ctx node kids @ notranslateEnd)"

definition unified :: processor where
  "unified = []"

definition use :: "plugin \<Rightarrow> processor \<Rightarrow> processor" where
  "use p proc = proc @ [p]"

definition baseProcessor :: processor where
  "baseProcessor = use TableAndStrikethrough (use RemarkParse unified)"

text \<open>
  The options that \<open>annotateCode\<close> and \<open>stringifyMd\<close> give to remark-stringify,
  and the processors they build.
\<close>

definition annotate_options :: "md_lib \<Rightarrow> stringify_options" where
  "annotate_options lib =
     \<lparr>fences = True, emphasis = ''*'', handlers = [(''inlineCode'', wrapInlineCode lib)]\<rparr>"

definition plain_options :: stringify_options where
  "plain_options = \<lparr>fences = True, emphasis = ''*'', handlers = []\<rparr>"

definition annotate_processor :: "md_lib \<Rightarrow> processor" where
  "annotate_processor lib = use (RemarkStringify (annotate_options lib)) baseProcessor"

definition stringify_processor :: processor where
  "stringify_processor = use (RemarkStringify plain_options) baseProcessor"

text \<open>
  The renderer of the library: the handler of a node is the one that the options give
  for its type, else the one that an extension gives, else the default one; a node is
  rendered from the renderings of its children, which the same handlers make
  (\<open>handle_node\<close>); and \<open>toMarkdown\<close> ends the rendering of the whole tree with a
  line feed when it is not empty and does not end with a line feed or a carriage return.
\<close>

definition handler_for ::
    "md_lib \<Rightarrow> (string \<times> md_handler) list \<Rightarrow> stringify_options \<Rightarrow> string \<Rightarrow> md_handler" where
  "handler_for lib exts opts t =
     (case map_of (handlers opts) t of
        Some h \<Rightarrow> h
      | None \<Rightarrow> (case map_of exts t of Some h \<Rightarrow> h | None \<Rightarrow> lib_handle lib t))"

fun handle_node ::
    "md_lib \<Rightarrow> (string \<times> md_handler) list \<Rightarrow> stringify_options \<Rightarrow> mdast \<Rightarrow> string" where
  "handle_node lib exts opts (Node t v cs) =
     handler_for lib exts opts t \<lparr>ctx_fences = fences opts, ctx_emphasis = emphasis opts\<rparr>
       (Node t v cs) (map (handle_node lib exts opts) cs)"

definition end_with_line_feed :: "string \<Rightarrow> string" where
  "end_with_line_feed result =
     (if result \<noteq> [] \<and> last result \<noteq> CHR 0x0A \<and> last result \<noteq> CHR 0x0D
      then result @ [CHR 0x0A] else result)"

definition toMarkdown ::
    "md_lib \<Rightarrow> (string \<times> md_handler) list \<Rightarrow> stringify_options \<Rightarrow> mdast \<Rightarrow> string" where
  "toMarkdown lib exts opts tree = end_with_line_feed (handle_node lib exts opts tree)"

fun is_stringify :: "plugin \<Rightarrow> bool" where
  "is_stringify (RemarkStringify opts) = True"
| "is_stringify p = False"

definition parser_plugins :: "processor \<Rightarrow> plugin list" where
  "parser_plugins proc = filter (\<lambda>p. \<not> is_stringify p) proc"

fun stringify_options_of :: "processor \<Rightarrow> stringify_options option" where
  "stringify_options_of [] = None"
| "stringify_options_of (RemarkStringify opts # ps) =
     (case stringify_options_of ps of None \<Rightarrow> Some opts | Some later \<Rightarrow> Some later)"
| "stringify_options_of (p # ps) = stringify_options_of ps"

text \<open>
  \<open>processor.stringify(tree)\<close> and \<open>processor.processSync(md).contents\<close>; both
  throw when the processor has no compiler.
\<close>

definition stringify :: "md_lib \<Rightarrow> processor \<Rightarrow> mdast \<Rightarrow> string option" where
  "stringify lib proc tree =
     map_option (\<lambda>opts. toMarkdown lib (extension_handlers lib (parser_plugins proc)) opts tree)
       (stringify_options_of proc)"

definition processSync :: "md_lib \<Rightarrow> processor \<Rightarrow> string \<Rightarrow> string option" where
  "processSync lib proc md = stringify lib proc (md_parse lib (parser_plugins proc) md)"

definition root :: "mdast list \<Rightarrow> mdast" where
  "root nodes = Node ''root'' [] nodes"

definition annotateCode :: "md_lib \<Rightarrow> string \<Rightarrow> string option" where
  "annotateCode lib md = processSync lib (annotate_processor lib) md"

definition stringifyMd :: "md_lib \<Rightarrow> mdast list \<Rightarrow> string option" where
  "stringifyMd lib nodes = stringify lib stringify_processor (root nodes)"

text \<open>Whether a tree holds a node of the given type.\<close>

fun has_type :: "string \<Rightarrow> mdast \<Rightarrow> bool" where
  "has_type t (Node t' v cs) = (t' = t \<or> list_ex (has_type t) cs)"

text \<open>
  The rendering that the specification describes for \<open>annotateCode\<close>, written from
  its words and not from the code: every node of type \<open>inlineCode\<close>, wherever it is in
  the tree, is the rendering of the default \<open>inlineCode\<close> handler between
  \<open><notranslate>\<close> and \<open></notranslate>\<close>, and a node of any other type is rendered
  by the handler that \<open>stringifyMd\<close> has for it, with fences and the emphasis
  \<open>*\<close>.
\<close>

fun specified_rendering :: "md_lib \<Rightarrow> (string \<times> md_handler) list \<Rightarrow> mdast \<Rightarrow> string" where
  "specified_rendering lib exts (Node t v cs) =
     (if t = ''inlineCode''
      then ''<notranslate>''
             @ lib_handle lib ''inlineCode'' \<lparr>ctx_fences = True, ctx_emphasis = ''*''\<rparr>
                 (Node t v cs) (map (specified_rendering lib exts) cs)
             @ ''</notranslate>''
      else handler_for lib exts plain_options t \<lparr>ctx_fences = True, ctx_emphasis = ''*''\<rparr>
             (Node t v cs) (map (specified_rendering lib exts) cs))"

section \<open>The checks of /update-my-username, named\<close>

text \<open>
  The username that /update-my-username would store for a submitted name; whether the
  submitted name is the caller's own (what the handler calls \<open>usernameUnchanged\<close>);
  and the three grounds on which the handler refuses a new username: it is profane, it
  is on the blocklist, or it differs from the lowercased username of the caller and a
  document already has it. The handler compares with the caller's username lowercased
  (\<open>oldUsername\<close>), not with the username as it is stored.
\<close>

definition new_username :: "string \<Rightarrow> string" where
  "new_username submitted = toLowerCase (trim submitted)"

definition username_unchanged :: "user \<Rightarrow> string \<Rightarrow> bool" where
  "username_unchanged u submitted =
     (new_username submitted = toLowerCase (username u) \<and>
      Some (trim submitted) = map_option trim (usernameDisplay u))"

definition username_refused :: "deps \<Rightarrow> server \<Rightarrow> user \<Rightarrow> string \<Rightarrow> bool" where
  "username_refused d s u n =
     (isProfane d n \<or> n \<in> set (blocklistedUsernames d) \<or>
      (n \<noteq> toLowerCase (username u) \<and> list_ex (\<lambda>v. username v = n) (users s)))"

section \<open>Example data\<close>

definition example_flags :: profile_ui where
  "example_flags =
     \<lparr>isLocked = True, showAbout = False, showCerts = True, showDonation = False,
      showHeatMap = True, showLocation = False, showName = True, showPoints = False,
      showPortfolio = True, showTimeLine = False\<rparr>"

definition example_user :: user where
  "example_user =
     \<lparr>uid = ''u1'', email = ''Foo@Bar.com'', username = ''camper'',
      usernameDisplay = Some ''Camper'',
      profileUI = \<lparr>isLocked = False, showAbout = False, showCerts = False,
                   showDonation = False, showHeatMap = False, showLocation = False,
                   showName = False, showPoints = False, showPortfolio = False,
                   showTimeLine = False\<rparr>,
      theme = ''default'', website = None, twitter = None, githubProfile = None,
      linkedin = None, about = ''hi'', name = ''Cam'', location = ''Here'',
      picture = ''https://example.com/a.png'', keyboardShortcuts = False,
      sendQuincyEmail = False, isHonest = False, acceptedPrivacyTerms = False,
      portfolio = []\<rparr>"

definition other_user :: user where
  "other_user =
     example_user\<lparr>uid := ''u2'', email := ''quincy@example.com'', username := ''quincy'',
                   usernameDisplay := Some ''Quincy''\<rparr>"

definition example_server :: server where
  "example_server =
     \<lparr>users = [example_user, other_user], error_log = [], trace = [], faults = []\<rparr>"

text \<open>
  Stand-ins for the imports: a username is valid from three characters on, one word is
  profane, two names are on the blocklist, a URL is what starts with a known scheme, and
  the clock shows 1000.
\<close>

definition example_deps :: deps where
  "example_deps =
     \<lparr>isProfane = (\<lambda>n. n = ''darn''),
      isValidUsername = (\<lambda>n. if length n < 3 then \<lparr>valid = False, error = ''is too short''\<rparr>
                              else \<lparr>valid = True, error = []\<rparr>),
      blocklistedUsernames = [''admin'', ''www''],
      url_protocol = (\<lambda>p. if take 8 p = ''https://'' \<and> 8 < length p then Some ''https:''
                           else if take 7 p = ''http://'' \<and> 7 < length p then Some ''http:''
                           else if take 4 p = ''ftp:'' then Some ''ftp:''
                           else None),
      now = 1000,
      formatLimit = (\<lambda>limit. case limit of None \<Rightarrow> ''now'' | Some t \<Rightarrow> ''then'')\<rparr>"

definition example_request :: "payload \<Rightarrow> request" where
  "example_request b = \<lparr>session_user_id = ''u1'', validationError = None, payload = b\<rparr>"

definition example_i18n :: i18n where
  "example_i18n =
     \<lparr>availableLangs_client = [''english'', ''espanol''],
      LangNames_keys = [''english'', ''Espanol''],
      LangCodes_keys = [''english'', ''espanol'']\<rparr>"

definition example_lib :: md_lib where
  "example_lib =
     \<lparr>md_parse = (\<lambda>ps md.
         if md = ''Use `x`''
         then Node ''root'' []
                [Node ''paragraph'' [] [Node ''text'' ''Use '' [], Node ''inlineCode'' ''x'' []]]
         else Node ''root'' [] [Node ''paragraph'' [] [Node ''text'' md []]]),
      lib_handle = (\<lambda>t ctx node kids.
         if t = ''inlineCode'' then ''`'' @ node_value node @ ''`''
         else node_value node @ concat kids),
      extension_handlers = (\<lambda>ps.
         [(''delete'', \<lambda>ctx node kids. ''~~'' @ concat kids @ ''~~'')])\<rparr>"

section \<open>The ORM calls\<close>

lemma find_user_update_first:
  "(\<And>x. uid (f x) = uid x) \<Longrightarrow>
   find_user j (update_first (\<lambda>x. uid x = i) f us) =
     (if j = i then map_option f (find_user i us) else find_user j us)"
  by (induction us) (auto simp: find_user_def)

lemma prisma_update_cases:
  assumes "prisma_update i f s = (r, s')"
  shows "(\<exists>e. r = Inl e \<and> users s' = users s \<and> trace s' = trace s @ [(Update i, Some e)])
       \<or> (\<exists>u. r = Inr (f u) \<and> find_user i (users s) = Some u
              \<and> users s' = update_first (\<lambda>x. uid x = i) f (users s)
              \<and> trace s' = trace s @ [(Update i, None)])"
    and "error_log s' = error_log s"
  using assms
  by (auto simp: prisma_update_def take_fault_def record_call_def
           split: list.splits option.splits)

lemma simple_update_cases:
  assumes "(case prisma_update i f s of (Inr u, s1) \<Rightarrow> (ok, s1) | (Inl e, s1) \<Rightarrow> caught e s1) = (r, s')"
  shows "(r = ok \<and> (\<exists>u. find_user i (users s) = Some u)
            \<and> users s' = update_first (\<lambda>x. uid x = i) f (users s)
            \<and> trace s' = trace s @ [(Update i, None)] \<and> error_log s' = error_log s)
       \<or> (\<exists>e. r = \<lparr>status = 500, body = flash ''flash.wrong-updating'' ''danger''\<rparr>
              \<and> users s' = users s \<and> trace s' = trace s @ [(Update i, Some e)]
              \<and> error_log s' = error_log s @ [e])"
proof -
  obtain x s1 where u: "prisma_update i f s = (x, s1)" by (cases "prisma_update i f s")
  from prisma_update_cases[OF u] assms u
  show ?thesis
    by (auto simp: caught_def log_error_def)
qed

lemma profileui_literal:
  "\<lparr>isLocked = isLocked b, showAbout = showAbout b, showCerts = showCerts b,
    showDonation = showDonation b, showHeatMap = showHeatMap b,
    showLocation = showLocation b, showName = showName b,
    showPoints = showPoints b, showPortfolio = showPortfolio b,
    showTimeLine = showTimeLine b\<rparr> = (b :: profile_ui)"
  by simp

section \<open>/update-my-profileui\<close>

text \<open>
  Claim C4. A successful PUT /update-my-profileui (a reply of the handler with status
  200) answers \<open>{ message: 'flash.privacy-updated', type: 'success' }\<close>; the caller's
  document then holds the ten flags of the request body (isLocked, showAbout,
  showCerts, showDonation, showHeatMap, showLocation, showName, showPoints,
  showPortfolio, showTimeLine) and is otherwise what it was; no other document changes.
\<close>

theorem update_my_profileui_success:
  assumes "payload req = ProfileUIBody b"
      and "handle_request d req s = (Sent r, s')"
      and "status r = 200"
  shows "body r = flash ''flash.privacy-updated'' ''success'' \<and>
         (\<exists>u u'. find_user (session_user_id req) (users s) = Some u \<and>
                 find_user (session_user_id req) (users s') = Some u' \<and>
                 isLocked (profileUI u') = isLocked b \<and>
                 showAbout (profileUI u') = showAbout b \<and>
                 showCerts (profileUI u') = showCerts b \<and>
                 showDonation (profileUI u') = showDonation b \<and>
                 showHeatMap (profileUI u') = showHeatMap b \<and>
                 showLocation (profileUI u') = showLocation b \<and>
                 showName (profileUI u') = showName b \<and>
                 showPoints (profileUI u') = showPoints b \<and>
                 showPortfolio (profileUI u') = showPortfolio b \<and>
                 showTimeLine (profileUI u') = showTimeLine b \<and>
                 u'\<lparr>profileUI := profileUI u\<rparr> = u) \<and>
         (\<forall>j. j \<noteq> session_user_id req \<longrightarrow> find_user j (users s') = find_user j (users s)) \<and>
         users s' = update_first (\<lambda>x. uid x = session_user_id req) (\<lambda>x. x\<lparr>profileUI := b\<rparr>) (users s)"
proof -
  let ?i = "session_user_id req"
  let ?f = "\<lambda>x::user. x\<lparr>profileUI := b\<rparr>"
  have opts: "attachValidation (options_of (endpoint_of (payload req))) = False"
    "errorHandler (options_of (endpoint_of (payload req))) = Some updateErrorHandler"
    using assms(1) by simp_all
  have noval: "validationError req = None"
  proof (cases "validationError req")
    case (Some m)
    with assms(2,3) opts show ?thesis
      by (auto simp add: handle_request_def route_error_def updateErrorHandler_def)
  qed simp
  obtain r0 s0 where h: "updateMyProfileUI req b s = (r0, s0)"
    by (cases "updateMyProfileUI req b s")
  with assms(1,2) noval have eq: "r0 = r" "s0 = s'"
    by (simp_all add: handle_request_def run_handler_def)
  from h have c: "(case prisma_update ?i ?f s of (Inr u, s1) \<Rightarrow>
         (\<lparr>status = 200, body = flash ''flash.privacy-updated'' ''success''\<rparr>, s1)
       | (Inl e, s1) \<Rightarrow> caught e s1) = (r, s')"
    unfolding eq updateMyProfileUI_def profileui_literal by simp
  from simple_update_cases[OF c] assms(3)
  obtain u where ok: "r = \<lparr>status = 200, body = flash ''flash.privacy-updated'' ''success''\<rparr>"
      "find_user ?i (users s) = Some u"
      "users s' = update_first (\<lambda>x. uid x = ?i) ?f (users s)"
    by auto
  have fu: "\<And>j. find_user j (users s') =
      (if j = ?i then map_option ?f (find_user ?i (users s)) else find_user j (users s))"
    unfolding ok(3) by (rule find_user_update_first) simp
  show ?thesis
    using ok fu by simp
qed

theorem update_my_profileui_success_witness:
  "payload (example_request (ProfileUIBody example_flags)) = ProfileUIBody example_flags \<and>
   (case handle_request example_deps (example_request (ProfileUIBody example_flags)) example_server of
      (Sent r, s') \<Rightarrow>
        status r = 200 \<and> body r = flash ''flash.privacy-updated'' ''success'' \<and>
        users s' = [example_user\<lparr>profileUI := example_flags\<rparr>, other_user]
    | (Delegated e, s') \<Rightarrow> False)"
proof -
  let ?req = "example_request (ProfileUIBody example_flags)"
  obtain out s' where run: "handle_request example_deps ?req example_server = (out, s')"
    by (cases "handle_request example_deps ?req example_server")
  then have out: "out = Sent \<lparr>status = 200, body = flash ''flash.privacy-updated'' ''success''\<rparr>"
    by (auto simp add: handle_request_def run_handler_def updateMyProfileUI_def prisma_update_def
        take_fault_def find_user_def record_call_def example_request_def example_server_def
        example_user_def other_user_def)
  have p: "payload ?req = ProfileUIBody example_flags" by (simp add: example_request_def)
  from update_my_profileui_success[OF p run[unfolded out]]
  show ?thesis
    unfolding run out
    by (simp add: example_request_def example_server_def example_user_def other_user_def p)
qed

section \<open>The handlers, case by case\<close>

lemma findUniqueOrThrow_cases:
  assumes "findUniqueOrThrow i s = (r, s')"
  shows "users s' = users s \<and> error_log s' = error_log s \<and>
         ((\<exists>e. r = Inl e \<and> trace s' = trace s @ [(FindUniqueOrThrow i, Some e)])
          \<or> (\<exists>u. r = Inr u \<and> find_user i (users s) = Some u
                 \<and> trace s' = trace s @ [(FindUniqueOrThrow i, None)]))"
  using assms
  by (auto simp: findUniqueOrThrow_def take_fault_def record_call_def
           split: list.splits option.splits)

text \<open>The limit is never past, so the update of /update-my-email is never reached.\<close>

lemma fiveMinuteLimit_not_past: "\<not> isPast clock fiveMinuteLimit"
  by (simp add: isPast_def fiveMinuteLimit_def)

lemma updateMyEmail_cases:
  assumes "updateMyEmail d req b s = (res, s')"
  shows "users s' = users s \<and> error_log s' = error_log s \<and>
    ((validationError req \<noteq> None \<and> s' = s \<and>
      res = Inr \<lparr>status = 400, body = flash ''Email format is invalid'' ''danger''\<rparr>)
     \<or> (validationError req = None \<and>
         (\<exists>e. res = Inl e \<and>
              trace s' = trace s @ [(FindUniqueOrThrow (session_user_id req), Some e)]))
     \<or> (validationError req = None \<and>
         trace s' = trace s @ [(FindUniqueOrThrow (session_user_id req), None)] \<and>
         (\<exists>u. find_user (session_user_id req) (users s) = Some u \<and>
              ((toLowerCase b = toLowerCase (email u) \<and>
                res = Inr \<lparr>status = 400,
                           body = [(''type'', JString ''info''),
                                   (''message'', JString (same_email_message (toLowerCase b)))]\<rparr>)
               \<or> (toLowerCase b \<noteq> toLowerCase (email u) \<and>
                   res = Inr \<lparr>status = 200,
                              body = [(''type'', JString ''info''),
                                      (''message'', JString (limit_message (toLowerCase b)
                                         (formatLimit d fiveMinuteLimit)))]\<rparr>)))))"
proof (cases "validationError req")
  case (Some m)
  with assms show ?thesis by (auto simp: updateMyEmail_def)
next
  case None
  let ?i = "session_user_id req"
  obtain r1 s1 where f: "findUniqueOrThrow ?i s = (r1, s1)" by (cases "findUniqueOrThrow ?i s")
  note fc = findUniqueOrThrow_cases[OF f]
  show ?thesis
  proof (cases r1)
    case (Inl e)
    with assms None f fc show ?thesis by (auto simp: updateMyEmail_def)
  next
    case (Inr u)
    with fc have u: "find_user ?i (users s) = Some u"
      and t1: "trace s1 = trace s @ [(FindUniqueOrThrow ?i, None)]"
      and k1: "users s1 = users s" "error_log s1 = error_log s"
      by auto
    show ?thesis
    proof (cases "toLowerCase b = toLowerCase (email u)")
      case True
      with assms None f Inr u t1 k1 show ?thesis
        by (auto simp: updateMyEmail_def same_email_message_def)
    next
      case False
      with assms None f Inr u t1 k1 show ?thesis
        by (auto simp: updateMyEmail_def limit_message_def Let_def fiveMinuteLimit_not_past)
    qed
  qed
qed

lemma findFirstOrThrow_cases:
  assumes "findFirstOrThrow i s = (r, s')"
  shows "users s' = users s \<and> error_log s' = error_log s \<and>
         ((\<exists>e. r = Inl e \<and> trace s' = trace s @ [(FindFirstOrThrow i, Some e)])
          \<or> (\<exists>u. r = Inr u \<and> find_user i (users s) = Some u
                 \<and> trace s' = trace s @ [(FindFirstOrThrow i, None)]))"
  using assms
  by (auto simp: findFirstOrThrow_def take_fault_def record_call_def
           split: list.splits option.splits)

lemma count_username_cases:
  assumes "count_username n s = (r, s')"
  shows "users s' = users s \<and> error_log s' = error_log s \<and>
         ((\<exists>e. r = Inl e \<and> trace s' = trace s @ [(Count n, Some e)])
          \<or> (r = Inr (length (filter (\<lambda>u. username u = n) (users s)))
              \<and> trace s' = trace s @ [(Count n, None)]))"
  using assms
  by (auto simp: count_username_def take_fault_def record_call_def
           split: list.splits option.splits)

text \<open>The stages of the try block of /update-my-username, from the last to the first.\<close>

lemma username_update_stage:
  assumes "(case prisma_update i f s2 of
              (Inl e, s3) \<Rightarrow> (Inl e, s3)
            | (Inr x, s3) \<Rightarrow> (Inr ok, s3)) = (res, s')"
  shows "error_log s' = error_log s2 \<and>
         ((res = Inr ok \<and> users s' = update_first (\<lambda>x. uid x = i) f (users s2) \<and>
           trace s' = trace s2 @ [(Update i, None)])
          \<or> (\<exists>e. res = Inl e \<and> users s' = users s2 \<and> trace s' = trace s2 @ [(Update i, Some e)]))"
proof -
  obtain r3 s3 where p: "prisma_update i f s2 = (r3, s3)" by (cases "prisma_update i f s2")
  from prisma_update_cases[OF p] assms p show ?thesis by auto
qed

lemma username_count_stage:
  assumes "(if n = old then (Inr 0, s1) else count_username n s1) = (c, s2)"
  shows "users s2 = users s1 \<and> error_log s2 = error_log s1 \<and>
         ((n = old \<and> c = Inr 0 \<and> trace s2 = trace s1)
          \<or> (n \<noteq> old \<and> (\<exists>e. c = Inl e \<and> trace s2 = trace s1 @ [(Count n, Some e)]))
          \<or> (n \<noteq> old \<and> c = Inr (length (filter (\<lambda>u. username u = n) (users s1))) \<and>
              trace s2 = trace s1 @ [(Count n, None)]))"
proof (cases "n = old")
  case True
  with assms show ?thesis by auto
next
  case False
  with assms have "count_username n s1 = (c, s2)" by simp
  from count_username_cases[OF this] False show ?thesis by auto
qed


lemma updateMyUsername_try_cases:
  assumes "updateMyUsername_try d req b s = (res, s')"
  shows "error_log s' = error_log s \<and>
    ((\<exists>e. res = Inl e \<and> users s' = users s \<and>
          trace s' = trace s @ [(FindFirstOrThrow (session_user_id req), Some e)])
     \<or> (\<exists>u. find_user (session_user_id req) (users s) = Some u \<and>
          ((b = None \<and> res = Inl (TypeError ''req.body.username.trim is not a function'') \<and>
            users s' = users s \<and>
            trace s' = trace s @ [(FindFirstOrThrow (session_user_id req), None)])
           \<or> (\<exists>sub. b = Some sub \<and> users s' = users s \<and>
                 trace s' = trace s @ [(FindFirstOrThrow (session_user_id req), None)] \<and>
                 ((username_unchanged u sub \<and>
                   res = Inr \<lparr>status = 400, body = flash ''flash.username-used'' ''info''\<rparr>)
                  \<or> (\<not> username_unchanged u sub \<and>
                      (\<exists>m. validationError req = Some m \<and>
                           res = Inr \<lparr>status = 400, body = flash m ''info''\<rparr>))
                  \<or> (\<not> username_unchanged u sub \<and> validationError req = None \<and>
                      \<not> valid (isValidUsername d (new_username sub)) \<and>
                      res = Inr \<lparr>status = 400,
                                 body = flash (''Username '' @ new_username sub @ '' ''
                                          @ error (isValidUsername d (new_username sub))) ''info''\<rparr>)))
           \<or> (\<exists>sub pre. b = Some sub \<and> \<not> username_unchanged u sub \<and>
                 validationError req = None \<and> valid (isValidUsername d (new_username sub)) \<and>
                 pre = (FindFirstOrThrow (session_user_id req), None)
                         # (if new_username sub = toLowerCase (username u) then []
                            else [(Count (new_username sub), None)]) \<and>
                 ((\<exists>e. res = Inl e \<and> users s' = users s \<and>
                       new_username sub \<noteq> toLowerCase (username u) \<and>
                       trace s' = trace s @ [(FindFirstOrThrow (session_user_id req), None),
                                             (Count (new_username sub), Some e)])
                  \<or> (username_refused d s u (new_username sub) \<and> users s' = users s \<and>
                      trace s' = trace s @ pre \<and>
                      res = Inr \<lparr>status = 400, body = flash ''flash.username-taken'' ''info''\<rparr>)
                  \<or> (\<not> username_refused d s u (new_username sub) \<and>
                      ((res = Inr \<lparr>status = 200,
                                   body = [(''message'', JString ''flash.username-updated''),
                                           (''type'', JString ''success''),
                                           (''username'', JString (trim sub))]\<rparr> \<and>
                        users s' = update_first (\<lambda>x. uid x = session_user_id req)
                                     (\<lambda>u. u\<lparr>username := new_username sub,
                                            usernameDisplay := Some (trim sub)\<rparr>) (users s) \<and>
                        trace s' = trace s @ pre @ [(Update (session_user_id req), None)])
                       \<or> (\<exists>e. res = Inl e \<and> users s' = users s \<and>
                              trace s' = trace s @ pre @ [(Update (session_user_id req), Some e)]))))))))"
proof -
  let ?i = "session_user_id req"
  obtain r1 s1 where f: "findFirstOrThrow ?i s = (r1, s1)" by (cases "findFirstOrThrow ?i s")
  note fc = findFirstOrThrow_cases[OF f]
  show ?thesis
  proof (cases r1)
    case (Inl e)
    with assms f fc show ?thesis by (auto simp: updateMyUsername_try_def)
  next
    case (Inr u)
    with fc have u: "find_user ?i (users s) = Some u"
      and t1: "trace s1 = trace s @ [(FindFirstOrThrow ?i, None)]"
      and k1: "users s1 = users s" "error_log s1 = error_log s"
      by auto
    show ?thesis
    proof (cases b)
      case None
      with assms f Inr u t1 k1 show ?thesis by (auto simp: updateMyUsername_try_def)
    next
      case (Some sub)
      let ?n = "new_username sub"
      let ?old = "toLowerCase (username u)"
      have early: "\<not> (\<not> username_unchanged u sub \<and> validationError req = None \<and>
                      valid (isValidUsername d ?n)) \<Longrightarrow> ?thesis"
      proof -
        assume a: "\<not> (\<not> username_unchanged u sub \<and> validationError req = None \<and>
                      valid (isValidUsername d ?n))"
        show ?thesis
        proof (cases "username_unchanged u sub")
          case True
          with assms f Inr Some
          have "res = Inr \<lparr>status = 400, body = flash ''flash.username-used'' ''info''\<rparr>" "s' = s1"
            by (simp_all add: updateMyUsername_try_def username_unchanged_def new_username_def Let_def)
          with True u t1 k1 Some show ?thesis by simp
        next
          case changed: False
          show ?thesis
          proof (cases "validationError req")
            case (Some m)
            with assms f Inr \<open>b = Some sub\<close> changed
            have "res = Inr \<lparr>status = 400, body = flash m ''info''\<rparr>" "s' = s1"
              by (auto simp add: updateMyUsername_try_def username_unchanged_def new_username_def Let_def
                       split: if_splits)
            with changed u t1 k1 Some \<open>b = Some sub\<close> show ?thesis by simp
          next
            case None
            with a changed have inv: "\<not> valid (isValidUsername d ?n)" by simp
            with assms f Inr \<open>b = Some sub\<close> changed None
            have "res = Inr \<lparr>status = 400,
                                 body = flash (''Username '' @ ?n @ '' ''
                                          @ error (isValidUsername d ?n)) ''info''\<rparr>" "s' = s1"
              by (auto simp add: updateMyUsername_try_def username_unchanged_def new_username_def Let_def
                       split: if_splits)
            with changed u t1 k1 None inv \<open>b = Some sub\<close> show ?thesis by simp
          qed
        qed
      qed
      show ?thesis
      proof (cases "\<not> username_unchanged u sub \<and> validationError req = None \<and>
                      valid (isValidUsername d ?n)")
        case False
        then show ?thesis by (rule early)
      next
        case True
        obtain c s2 where cnt: "(if ?n = ?old then (Inr 0, s1) else count_username ?n s1) = (c, s2)"
          by (cases "if ?n = ?old then (Inr 0, s1) else count_username ?n s1")
        note cc = username_count_stage[OF cnt]
        from assms f Inr Some True cnt
        have rest: "(res, s') = (case c of Inl e \<Rightarrow> (Inl e, s2)
            | Inr usernameTaken \<Rightarrow>
                if usernameTaken \<noteq> 0 \<or> isProfane d ?n \<or> ?n \<in> set (blocklistedUsernames d)
                then (Inr \<lparr>status = 400, body = flash ''flash.username-taken'' ''info''\<rparr>, s2)
                else (case prisma_update ?i (\<lambda>u. u\<lparr>username := ?n,
                                                  usernameDisplay := Some (trim sub)\<rparr>) s2 of
                        (Inl e, s3) \<Rightarrow> (Inl e, s3)
                      | (Inr x, s3) \<Rightarrow>
                          (Inr \<lparr>status = 200,
                                body = [(''message'', JString ''flash.username-updated''),
                                        (''type'', JString ''success''),
                                        (''username'', JString (trim sub))]\<rparr>, s3)))"
          by (auto simp add: updateMyUsername_try_def username_unchanged_def new_username_def Let_def
                   split: sum.splits if_splits)
        show ?thesis
        proof (cases c)
          case (Inl e)
          with rest cc u t1 k1 Some True show ?thesis by auto
        next
          case (Inr taken)
          with cc have tk: "(taken \<noteq> 0) = (?n \<noteq> ?old \<and> list_ex (\<lambda>v. username v = ?n) (users s))"
            using k1 by (auto simp: list_ex_iff filter_empty_conv)
          have pre: "trace s2 = trace s @ (FindFirstOrThrow ?i, None)
                         # (if ?n = ?old then [] else [(Count ?n, None)])"
            using cc Inr t1 by auto
          have k2: "users s2 = users s" "error_log s2 = error_log s" using cc k1 by auto
          show ?thesis
          proof (cases "username_refused d s u ?n")
            case refused: True
            with rest Inr tk have "res = Inr \<lparr>status = 400, body = flash ''flash.username-taken'' ''info''\<rparr>"
              "s' = s2" by (auto simp: username_refused_def)
            with refused pre k2 u Some True show ?thesis by auto
          next
            case ok: False
            with rest Inr tk
            have "(case prisma_update ?i (\<lambda>u. u\<lparr>username := ?n,
                                                  usernameDisplay := Some (trim sub)\<rparr>) s2 of
                        (Inl e, s3) \<Rightarrow> (Inl e, s3)
                      | (Inr x, s3) \<Rightarrow>
                          (Inr \<lparr>status = 200,
                                body = [(''message'', JString ''flash.username-updated''),
                                        (''type'', JString ''success''),
                                        (''username'', JString (trim sub))]\<rparr>, s3)) = (res, s')"
              by (auto simp: username_refused_def)
            from username_update_stage[OF this] ok pre k2 u Some True
            show ?thesis by auto
          qed
        qed
      qed
    qed
  qed
qed

lemma simple_update_summary:
  assumes "(case prisma_update i f s of
              (Inr u, s1) \<Rightarrow> (\<lparr>status = 200, body = flash k ''success''\<rparr>, s1)
            | (Inl e, s1) \<Rightarrow> caught e s1) = (r, s')"
      and "k \<in> set message_keys"
  shows "((\<exists>k \<in> set message_keys. r = \<lparr>status = 200, body = flash k ''success''\<rparr>) \<and>
            trace s' = trace s @ [(Update i, None)] \<and> error_log s' = error_log s)
         \<or> (\<exists>e. r = \<lparr>status = 500, body = flash ''flash.wrong-updating'' ''danger''\<rparr> \<and>
                users s' = users s \<and> trace s' = trace s @ [(Update i, Some e)] \<and>
                error_log s' = error_log s @ [e])"
  using simple_update_cases[OF assms(1)] assms(2) by blast

lemma simple_handler_cases:
  assumes "endpoint_of p \<noteq> UpdateMyEmail" and "endpoint_of p \<noteq> UpdateMyUsername"
      and "handler d req p s = (res, s')"
  shows "\<exists>r. res = Inr r \<and>
           (((\<exists>k \<in> set message_keys. r = \<lparr>status = 200, body = flash k ''success''\<rparr>) \<and>
             trace s' = trace s @ [(Update (session_user_id req), None)] \<and>
             error_log s' = error_log s)
            \<or> (\<exists>e. r = \<lparr>status = 500, body = flash ''flash.wrong-updating'' ''danger''\<rparr> \<and>
                   users s' = users s \<and>
                   trace s' = trace s @ [(Update (session_user_id req), Some e)] \<and>
                   error_log s' = error_log s @ [e]))"
proof (cases p)
  case (ProfileUIBody b)
  with assms(3) obtain r where r: "res = Inr r" "updateMyProfileUI req b s = (r, s')"
    by (auto split: prod.splits)
  from simple_update_summary[OF r(2)[unfolded updateMyProfileUI_def]] r(1)
  show ?thesis by (simp add: message_keys_def)
next
  case (ThemeBody b)
  with assms(3) obtain r where r: "res = Inr r" "updateMyTheme req b s = (r, s')"
    by (auto split: prod.splits)
  from simple_update_summary[OF r(2)[unfolded updateMyTheme_def]] r(1)
  show ?thesis by (simp add: message_keys_def)
next
  case (SocialsBody b)
  with assms(3) obtain r where r: "res = Inr r" "updateMySocials req b s = (r, s')"
    by (auto split: prod.splits)
  from simple_update_summary[OF r(2)[unfolded updateMySocials_def]] r(1)
  show ?thesis by (simp add: message_keys_def)
next
  case (AboutBody b)
  with assms(3) obtain r where r: "res = Inr r" "updateMyAbout d req b s = (r, s')"
    by (auto split: prod.splits)
  from simple_update_summary[OF r(2)[unfolded updateMyAbout_def Let_def]] r(1)
  show ?thesis by (simp add: message_keys_def)
next
  case (KeyboardShortcutsBody b)
  with assms(3) obtain r where r: "res = Inr r" "updateMyKeyboardShortcuts req b s = (r, s')"
    by (auto split: prod.splits)
  from simple_update_summary[OF r(2)[unfolded updateMyKeyboardShortcuts_def]] r(1)
  show ?thesis by (simp add: message_keys_def)
next
  case (QuincyEmailBody b)
  with assms(3) obtain r where r: "res = Inr r" "updateMyQuincyEmail req b s = (r, s')"
    by (auto split: prod.splits)
  from simple_update_summary[OF r(2)[unfolded updateMyQuincyEmail_def]] r(1)
  show ?thesis by (simp add: message_keys_def)
next
  case (HonestyBody b)
  with assms(3) obtain r where r: "res = Inr r" "updateMyHonesty req b s = (r, s')"
    by (auto split: prod.splits)
  from simple_update_summary[OF r(2)[unfolded updateMyHonesty_def]] r(1)
  show ?thesis by (simp add: message_keys_def)
next
  case (PrivacyTermsBody b)
  with assms(3) obtain r where r: "res = Inr r" "updatePrivacyTerms req b s = (r, s')"
    by (auto split: prod.splits)
  from simple_update_summary[OF r(2)[unfolded updatePrivacyTerms_def]] r(1)
  show ?thesis by (simp add: message_keys_def)
next
  case (PortfolioBody b)
  with assms(3) obtain r where r: "res = Inr r" "updateMyPortfolio req b s = (r, s')"
    by (auto split: prod.splits)
  from simple_update_summary[OF r(2)[unfolded updateMyPortfolio_def Let_def]] r(1)
  show ?thesis by (simp add: message_keys_def)
next
  case (EmailBody b)
  with assms(1) show ?thesis by simp
next
  case (UsernameBody b)
  with assms(2) show ?thesis by simp
qed

section \<open>The calls of a handler\<close>

lemma new_calls_append [simp]: "trace s' = trace s @ xs \<Longrightarrow> new_calls s s' = xs"
  by (simp add: new_calls_def)

lemma new_calls_same [simp]: "new_calls s s = []"
  by (simp add: new_calls_def)

lemma username_update_error:
  assumes "updateMyUsername d req b s = (r, s')"
      and "(Update i, Some x) \<in> set (new_calls s s')"
  shows "r = \<lparr>status = 500, body = flash ''flash.wrong-updating'' ''danger''\<rparr> \<and>
         error_log s' = error_log s @ [x]"
proof -
  obtain res s0 where t: "updateMyUsername_try d req b s = (res, s0)"
    by (cases "updateMyUsername_try d req b s")
  note tc = updateMyUsername_try_cases[OF t]
  show ?thesis
  proof (cases res)
    case (Inr r0)
    with assms(1) t have "s' = s0" by (simp add: updateMyUsername_def)
    with tc Inr assms(2) show ?thesis by (auto split: if_splits)
  next
    case (Inl e)
    with assms(1) t have s': "r = \<lparr>status = 500, body = flash ''flash.wrong-updating'' ''danger''\<rparr>"
      "trace s' = trace s0" "error_log s' = error_log s0 @ [e]"
      by (auto simp: updateMyUsername_def caught_def log_error_def)
    have "new_calls s s' = new_calls s s0" by (simp add: new_calls_def s'(2))
    with tc Inl assms(2) have "e = x" by (auto split: if_splits)
    with s' tc show ?thesis by simp
  qed
qed

lemma handler_update_error:
  assumes "handler d req p s = (res, s')"
      and "(Update i, Some x) \<in> set (new_calls s s')"
  shows "res = Inr \<lparr>status = 500, body = flash ''flash.wrong-updating'' ''danger''\<rparr> \<and>
         error_log s' = error_log s @ [x]"
proof (cases "endpoint_of p = UpdateMyEmail \<or> endpoint_of p = UpdateMyUsername")
  case False
  with simple_handler_cases[OF _ _ assms(1)] assms(2) show ?thesis by auto
next
  case True
  then show ?thesis
  proof (cases p)
    case (EmailBody b)
    with assms(1) have "updateMyEmail d req b s = (res, s')" by simp
    from updateMyEmail_cases[OF this] assms(2) show ?thesis by auto
  next
    case (UsernameBody b)
    with assms(1) obtain r where "res = Inr r" "updateMyUsername d req b s = (r, s')"
      by (auto split: prod.splits)
    with username_update_error[OF this(2) assms(2)] show ?thesis by simp
  qed simp_all
qed

section \<open>Errors\<close>

lemma response_schema_of:
  "response_schema (options_of ep) r = (if ep = UpdateMyEmail then email_response_schema r else r)"
  by (cases ep) simp_all

lemma email_response_schema_500 [simp]:
  "email_response_schema \<lparr>status = 500, body = flash ''flash.wrong-updating'' ''danger''\<rparr>
     = \<lparr>status = 500, body = flash ''flash.wrong-updating'' ''danger''\<rparr>"
  by (simp add: email_response_schema_def)

text \<open>
  Claim C2. On a route registered with \<open>updateErrorHandler\<close>, a body that fails
  validation is answered with status 400 and exactly
  \<open>{ message: 'flash.wrong-updating', type: 'danger' }\<close>, and nothing changes;
  \<open>updateErrorHandler\<close> answers so for every validation error and hands every other
  error to the default error handler. On every route, when the \<open>update\<close> call of the
  ORM throws, the error is caught and logged and the answer is status 500 with exactly
  \<open>{ message: 'flash.wrong-updating', type: 'danger' }\<close>.
\<close>

theorem update_errors_answered:
  "(errorHandler (options_of (endpoint_of (payload req))) = Some updateErrorHandler \<and>
    validationError req = Some m \<longrightarrow>
      handle_request d req s =
        (Sent \<lparr>status = 400, body = flash ''flash.wrong-updating'' ''danger''\<rparr>, s)) \<and>
   (validation e \<longrightarrow>
      updateErrorHandler e = Sent \<lparr>status = 400, body = flash ''flash.wrong-updating'' ''danger''\<rparr>) \<and>
   (\<not> validation e \<longrightarrow> updateErrorHandler e = Delegated e) \<and>
   (handle_request d req s = (out, s') \<and> (Update i, Some x) \<in> set (new_calls s s') \<longrightarrow>
      out = Sent \<lparr>status = 500, body = flash ''flash.wrong-updating'' ''danger''\<rparr> \<and>
      error_log s' = error_log s @ [x])"
proof (intro conjI impI)
  assume a: "errorHandler (options_of (endpoint_of (payload req))) = Some updateErrorHandler \<and>
    validationError req = Some m"
  then have "attachValidation (options_of (endpoint_of (payload req))) = False"
    by (cases "endpoint_of (payload req)") simp_all
  with a show "handle_request d req s =
        (Sent \<lparr>status = 400, body = flash ''flash.wrong-updating'' ''danger''\<rparr>, s)"
    by (simp add: handle_request_def route_error_def updateErrorHandler_def)
next
  assume "validation e"
  then show "updateErrorHandler e = Sent \<lparr>status = 400, body = flash ''flash.wrong-updating'' ''danger''\<rparr>"
    by (simp add: updateErrorHandler_def)
next
  assume "\<not> validation e"
  then show "updateErrorHandler e = Delegated e" by (simp add: updateErrorHandler_def)
next
  assume a: "handle_request d req s = (out, s') \<and> (Update i, Some x) \<in> set (new_calls s s')"
  then have run: "run_handler d req s = (out, s')"
    by (auto simp: handle_request_def Let_def split: option.splits if_splits)
  obtain res s0 where h: "handler d req (payload req) s = (res, s0)"
    by (cases "handler d req (payload req) s")
  with run have s0: "s0 = s'" by (auto simp: run_handler_def split: sum.splits)
  from a have "(Update i, Some x) \<in> set (new_calls s s')" by simp
  from handler_update_error[OF h[unfolded s0] this]
  have "res = Inr \<lparr>status = 500, body = flash ''flash.wrong-updating'' ''danger''\<rparr>"
    "error_log s' = error_log s @ [x]" by simp_all
  with run h show "out = Sent \<lparr>status = 500, body = flash ''flash.wrong-updating'' ''danger''\<rparr>"
    by (auto simp: run_handler_def response_schema_of split: if_splits)
  show "error_log s' = error_log s @ [x]" by fact
qed

section \<open>Evaluating the examples\<close>

lemmas example_defs =
  example_request_def example_server_def example_user_def other_user_def example_deps_def

lemmas orm_defs =
  prisma_update_def findUniqueOrThrow_def findFirstOrThrow_def count_username_def
  take_fault_def record_call_def find_user_def caught_def log_error_def

text \<open>
  Claim C2 at examples: /update-my-theme with a body that fails validation, a
  validation error and a thrown error given to \<open>updateErrorHandler\<close>, and
  /update-my-theme while the data store is down.
\<close>

theorem update_errors_answered_witness:
  "errorHandler (options_of (endpoint_of (payload
      ((example_request (ThemeBody ''blue''))\<lparr>validationError := Some ''body/theme is not allowed''\<rparr>))))
     = Some updateErrorHandler \<and>
   handle_request example_deps
      ((example_request (ThemeBody ''blue''))\<lparr>validationError := Some ''body/theme is not allowed''\<rparr>)
      example_server
     = (Sent \<lparr>status = 400, body = flash ''flash.wrong-updating'' ''danger''\<rparr>, example_server) \<and>
   validation (ValidationError ''body/theme is not allowed'') \<and>
   updateErrorHandler (ValidationError ''body/theme is not allowed'')
     = Sent \<lparr>status = 400, body = flash ''flash.wrong-updating'' ''danger''\<rparr> \<and>
   \<not> validation (HandlerError RecordNotFound) \<and>
   updateErrorHandler (HandlerError RecordNotFound) = Delegated (HandlerError RecordNotFound) \<and>
   (case handle_request example_deps (example_request (ThemeBody ''night''))
           (example_server\<lparr>faults := [Some (PrismaClientError ''down'')]\<rparr>) of
      (out, s') \<Rightarrow>
        (Update ''u1'', Some (PrismaClientError ''down''))
          \<in> set (new_calls (example_server\<lparr>faults := [Some (PrismaClientError ''down'')]\<rparr>) s') \<and>
        out = Sent \<lparr>status = 500, body = flash ''flash.wrong-updating'' ''danger''\<rparr> \<and>
        error_log s' = [PrismaClientError ''down''])"
proof -
  let ?bad = "(example_request (ThemeBody ''blue''))\<lparr>validationError := Some ''body/theme is not allowed''\<rparr>"
  let ?s = "example_server\<lparr>faults := [Some (PrismaClientError ''down'')]\<rparr>"
  let ?req = "example_request (ThemeBody ''night'')"
  have h1: "errorHandler (options_of (endpoint_of (payload ?bad))) = Some updateErrorHandler \<and>
            validationError ?bad = Some ''body/theme is not allowed''"
    by (simp add: example_request_def)
  obtain out s' where run: "handle_request example_deps ?req ?s = (out, s')"
    by (cases "handle_request example_deps ?req ?s")
  then have tr: "(Update ''u1'', Some (PrismaClientError ''down'')) \<in> set (new_calls ?s s')"
    by (auto simp: handle_request_def run_handler_def updateMyTheme_def orm_defs new_calls_def
          example_defs)
  have lg: "error_log ?s = []" by (simp add: example_server_def)
  from update_errors_answered[of ?bad "''body/theme is not allowed''" example_deps example_server
         "ValidationError ''body/theme is not allowed''" out s' "''u1''" "PrismaClientError ''down''"]
       update_errors_answered[of ?req "''''" example_deps ?s
         "HandlerError RecordNotFound" out s' "''u1''" "PrismaClientError ''down''"]
       h1 run tr lg
  show ?thesis by simp
qed

section \<open>How many calls a handler makes\<close>

lemma username_calls:
  assumes "updateMyUsername d req b s = (r, s')"
  shows "(\<exists>x. new_calls s s' = [(FindFirstOrThrow (session_user_id req), x)]) \<or>
         (\<exists>x. new_calls s s' = [(FindFirstOrThrow (session_user_id req), None),
                                 (Update (session_user_id req), x)]) \<or>
         (\<exists>sub x. b = Some sub \<and>
            new_calls s s' = [(FindFirstOrThrow (session_user_id req), None),
                              (Count (new_username sub), x)]) \<or>
         (\<exists>sub x. b = Some sub \<and>
            new_calls s s' = [(FindFirstOrThrow (session_user_id req), None),
                              (Count (new_username sub), None),
                              (Update (session_user_id req), x)])"
    and "(\<exists>n x. (Count n, x) \<in> set (new_calls s s')) =
         ((FindFirstOrThrow (session_user_id req), None) \<in> set (new_calls s s') \<and>
          (\<exists>sub u. b = Some sub \<and> find_user (session_user_id req) (users s) = Some u \<and>
             \<not> username_unchanged u sub \<and> validationError req = None \<and>
             valid (isValidUsername d (new_username sub)) \<and>
             new_username sub \<noteq> toLowerCase (username u)))"
proof -
  obtain res s0 where t: "updateMyUsername_try d req b s = (res, s0)"
    by (cases "updateMyUsername_try d req b s")
  note tc = updateMyUsername_try_cases[OF t]
  from assms t have "trace s' = trace s0"
    by (auto simp: updateMyUsername_def caught_def log_error_def split: sum.splits)
  then have n: "new_calls s s' = new_calls s s0" by (simp add: new_calls_def)
  from tc show "(\<exists>x. new_calls s s' = [(FindFirstOrThrow (session_user_id req), x)]) \<or>
         (\<exists>x. new_calls s s' = [(FindFirstOrThrow (session_user_id req), None),
                                 (Update (session_user_id req), x)]) \<or>
         (\<exists>sub x. b = Some sub \<and>
            new_calls s s' = [(FindFirstOrThrow (session_user_id req), None),
                              (Count (new_username sub), x)]) \<or>
         (\<exists>sub x. b = Some sub \<and>
            new_calls s s' = [(FindFirstOrThrow (session_user_id req), None),
                              (Count (new_username sub), None),
                              (Update (session_user_id req), x)])"
    unfolding n by (auto split: if_splits)
  from tc show "(\<exists>n x. (Count n, x) \<in> set (new_calls s s')) =
         ((FindFirstOrThrow (session_user_id req), None) \<in> set (new_calls s s') \<and>
          (\<exists>sub u. b = Some sub \<and> find_user (session_user_id req) (users s) = Some u \<and>
             \<not> username_unchanged u sub \<and> validationError req = None \<and>
             valid (isValidUsername d (new_username sub)) \<and>
             new_username sub \<noteq> toLowerCase (username u)))"
    unfolding n by (auto split: if_splits)
qed


text \<open>
  Claim C3, as amended. Each of the nine handlers other than those of /update-my-email
  and /update-my-username makes exactly one call of the ORM, an \<open>update\<close> of the
  caller's document. The handler of /update-my-email makes no call when validation
  failed; otherwise its first call is \<open>findUniqueOrThrow\<close>, the read of the stored
  email, and it makes no other call than at most one \<open>update\<close> after a read that
  succeeded. The handler of /update-my-username first reads the caller's document with
  \<open>findFirstOrThrow\<close>; it then counts the documents with the new username exactly when
  that read succeeded, the submitted name is a string and not the caller's unchanged
  name, the request passed validation, \<open>isValidUsername\<close> accepts the new username and
  the new username differs from the caller's lowercased username; and it ends with at
  most one \<open>update\<close>, made only when every call before it succeeded.
\<close>

theorem orm_calls_of_handlers:
  assumes "handler d req (payload req) s = (res, s')"
  shows "(case payload req of
      EmailBody b \<Rightarrow>
        (validationError req \<noteq> None \<longrightarrow> new_calls s s' = []) \<and>
        (validationError req = None \<longrightarrow>
           (\<exists>x. new_calls s s' = [(FindUniqueOrThrow (session_user_id req), x)]) \<or>
           (\<exists>x. new_calls s s' = [(FindUniqueOrThrow (session_user_id req), None),
                                   (Update (session_user_id req), x)]))
    | UsernameBody b \<Rightarrow>
        ((\<exists>x. new_calls s s' = [(FindFirstOrThrow (session_user_id req), x)]) \<or>
         (\<exists>x. new_calls s s' = [(FindFirstOrThrow (session_user_id req), None),
                                 (Update (session_user_id req), x)]) \<or>
         (\<exists>sub x. b = Some sub \<and>
            new_calls s s' = [(FindFirstOrThrow (session_user_id req), None),
                              (Count (new_username sub), x)]) \<or>
         (\<exists>sub x. b = Some sub \<and>
            new_calls s s' = [(FindFirstOrThrow (session_user_id req), None),
                              (Count (new_username sub), None),
                              (Update (session_user_id req), x)])) \<and>
        ((\<exists>n x. (Count n, x) \<in> set (new_calls s s')) =
         ((FindFirstOrThrow (session_user_id req), None) \<in> set (new_calls s s') \<and>
          (\<exists>sub u. b = Some sub \<and> find_user (session_user_id req) (users s) = Some u \<and>
             \<not> username_unchanged u sub \<and> validationError req = None \<and>
             valid (isValidUsername d (new_username sub)) \<and>
             new_username sub \<noteq> toLowerCase (username u))))
    | _ \<Rightarrow> (\<exists>x. new_calls s s' = [(Update (session_user_id req), x)]))"
proof (cases "endpoint_of (payload req) = UpdateMyEmail \<or> endpoint_of (payload req) = UpdateMyUsername")
  case False
  with simple_handler_cases[OF _ _ assms]
  have "\<exists>x. new_calls s s' = [(Update (session_user_id req), x)]" by auto
  with False show ?thesis by (cases "payload req") simp_all
next
  case True
  then show ?thesis
  proof (cases "payload req")
    case (EmailBody b)
    with assms have "updateMyEmail d req b s = (res, s')" by simp
    from updateMyEmail_cases[OF this] have
      "(validationError req \<noteq> None \<longrightarrow> new_calls s s' = []) \<and>
       (validationError req = None \<longrightarrow>
           (\<exists>x. new_calls s s' = [(FindUniqueOrThrow (session_user_id req), x)]) \<or>
           (\<exists>x. new_calls s s' = [(FindUniqueOrThrow (session_user_id req), None),
                                   (Update (session_user_id req), x)]))"
      by auto
    with EmailBody show ?thesis by simp
  next
    case (UsernameBody b)
    with assms obtain r where "updateMyUsername d req b s = (r, s')"
      by (auto split: prod.splits)
    from username_calls[OF this] UsernameBody show ?thesis by simp
  qed simp_all
qed

text \<open>
  Claim C3, as amended, at examples: a change of theme, an email that failed
  validation, a new email, and a username that another user holds.
\<close>

theorem orm_calls_of_handlers_witness:
  "new_calls example_server
     (snd (handler example_deps (example_request (ThemeBody ''night''))
             (ThemeBody ''night'') example_server))
     = [(Update ''u1'', None)] \<and>
   validationError ((example_request (EmailBody ''nobody''))
                       \<lparr>validationError := Some ''body/email must match format email''\<rparr>)
     \<noteq> None \<and>
   new_calls example_server
     (snd (handler example_deps
             ((example_request (EmailBody ''nobody''))
                \<lparr>validationError := Some ''body/email must match format email''\<rparr>)
             (EmailBody ''nobody'') example_server))
     = [] \<and>
   validationError (example_request (EmailBody ''new@example.com'')) = None \<and>
   new_calls example_server
     (snd (handler example_deps (example_request (EmailBody ''new@example.com''))
             (EmailBody ''new@example.com'') example_server))
     = [(FindUniqueOrThrow ''u1'', None)] \<and>
   new_calls example_server
     (snd (handler example_deps (example_request (UsernameBody (Some ''Quincy'')))
             (UsernameBody (Some ''Quincy'')) example_server))
     = [(FindFirstOrThrow ''u1'', None), (Count ''quincy'', None)] \<and>
   find_user ''u1'' (users example_server) = Some example_user \<and>
   \<not> username_unchanged example_user ''Quincy'' \<and>
   valid (isValidUsername example_deps (new_username ''Quincy'')) \<and>
   new_username ''Quincy'' \<noteq> toLowerCase (username example_user)"
proof -
  let ?theme = "example_request (ThemeBody ''night'')"
  let ?bad = "(example_request (EmailBody ''nobody''))
                \<lparr>validationError := Some ''body/email must match format email''\<rparr>"
  let ?new = "example_request (EmailBody ''new@example.com'')"
  let ?name = "example_request (UsernameBody (Some ''Quincy''))"
  obtain r1 s1 where h1: "handler example_deps ?theme (payload ?theme) example_server = (r1, s1)"
    by (cases "handler example_deps ?theme (payload ?theme) example_server")
  obtain r2 s2 where h2: "handler example_deps ?bad (payload ?bad) example_server = (r2, s2)"
    by (cases "handler example_deps ?bad (payload ?bad) example_server")
  obtain r3 s3 where h3: "handler example_deps ?new (payload ?new) example_server = (r3, s3)"
    by (cases "handler example_deps ?new (payload ?new) example_server")
  obtain r4 s4 where h4: "handler example_deps ?name (payload ?name) example_server = (r4, s4)"
    by (cases "handler example_deps ?name (payload ?name) example_server")
  have p: "payload ?theme = ThemeBody ''night''" "payload ?bad = EmailBody ''nobody''"
    "payload ?new = EmailBody ''new@example.com''" "payload ?name = UsernameBody (Some ''Quincy'')"
    "validationError ?bad \<noteq> None" "validationError ?new = None" "validationError ?name = None"
    "session_user_id ?theme = ''u1''" "session_user_id ?bad = ''u1''"
    "session_user_id ?new = ''u1''" "session_user_id ?name = ''u1''"
    by (simp_all add: example_request_def)
  have nq: "new_username ''Quincy'' = ''quincy''"
    by (simp add: new_username_def trim_def is_space_def toLowerCase_def lower_char_def)
  have u: "find_user ''u1'' (users example_server) = Some example_user"
    by (simp add: find_user_def example_defs)
  have changed: "\<not> username_unchanged example_user ''Quincy''"
    unfolding username_unchanged_def nq
    by (simp add: example_defs toLowerCase_def lower_char_def)
  have ok: "valid (isValidUsername example_deps (new_username ''Quincy''))"
    unfolding nq by (simp add: example_deps_def)
  have differs: "new_username ''Quincy'' \<noteq> toLowerCase (username example_user)"
    unfolding nq by (simp add: example_defs toLowerCase_def lower_char_def)
  have t1: "new_calls example_server s1 = [(Update ''u1'', None)]"
    using h1 by (auto simp: p updateMyTheme_def orm_defs new_calls_def example_defs)
  have t3: "new_calls example_server s3 = [(FindUniqueOrThrow ''u1'', None)]"
    using h3 by (auto simp: p updateMyEmail_def orm_defs new_calls_def example_defs Let_def
                   fiveMinuteLimit_not_past toLowerCase_def lower_char_def)
  have t4: "new_calls example_server s4 = [(FindFirstOrThrow ''u1'', None), (Count ''quincy'', None)]"
    using h4 by (auto simp: p updateMyUsername_def updateMyUsername_try_def orm_defs new_calls_def
                   example_defs Let_def trim_def is_space_def toLowerCase_def lower_char_def)
  from orm_calls_of_handlers[OF h2] p have t2: "new_calls example_server s2 = []" by simp
  from orm_calls_of_handlers[OF h4] p t4 u
  have "(\<exists>n x. (Count n, x) \<in> set (new_calls example_server s4))" by simp
  from t1 t2 t3 t4 u changed ok differs p h1 h2 h3 h4 show ?thesis
    by simp
qed

text \<open>
  Claim C3 as stated fails: a change of username reads the caller's document and counts
  the holders of the new name before it updates, and a change of email reads the stored
  email.
\<close>

theorem single_update_counterexample:
  "map fst (new_calls example_server
       (snd (handler example_deps (example_request (UsernameBody (Some '' NewName '')))
               (UsernameBody (Some '' NewName '')) example_server)))
     = [FindFirstOrThrow ''u1'', Count ''newname'', Update ''u1''] \<and>
   map fst (new_calls example_server
       (snd (handler example_deps (example_request (UsernameBody (Some '' NewName '')))
               (UsernameBody (Some '' NewName '')) example_server)))
     \<noteq> [Update ''u1''] \<and>
   hd (map fst (new_calls example_server
       (snd (handler example_deps (example_request (EmailBody ''new@example.com''))
               (EmailBody ''new@example.com'') example_server))))
     = FindUniqueOrThrow ''u1''"
  by (simp add: updateMyUsername_def updateMyUsername_try_def updateMyEmail_def orm_defs
        example_defs new_calls_def trim_def is_space_def toLowerCase_def lower_char_def Let_def
        fiveMinuteLimit_not_past)

section \<open>The replies of the handlers\<close>

lemma message_of_flash [simp]: "message_of \<lparr>status = n, body = flash m t\<rparr> = Some m"
  by (simp add: message_of_def flash_def)

lemma type_of_flash [simp]: "type_of \<lparr>status = n, body = flash m t\<rparr> = Some t"
  by (simp add: type_of_def flash_def)

lemma flash_shaped_flash [simp]:
  "flash_shaped \<lparr>status = n, body = flash m t\<rparr> = (t = ''success'' \<or> t = ''danger'' \<or> t = ''info'')"
  by (simp add: flash_shaped_def)

lemma keys_wrong_updating [simp]: "''flash.wrong-updating'' \<in> set message_keys"
  by (simp add: message_keys_def)

lemma username_replies:
  assumes "updateMyUsername d req b s = (r, s')"
  shows "flash_shaped r \<and>
         (\<exists>m. message_of r = Some m \<and>
            (m \<in> set message_keys \<or>
             (\<exists>sub. b = Some sub \<and>
                (validationError req = Some m \<or>
                 m = ''Username '' @ new_username sub @ '' ''
                       @ error (isValidUsername d (new_username sub))))))"
proof -
  obtain res s0 where t: "updateMyUsername_try d req b s = (res, s0)"
    by (cases "updateMyUsername_try d req b s")
  note tc = updateMyUsername_try_cases[OF t]
  show ?thesis
  proof (cases res)
    case (Inl e)
    with assms t have "r = \<lparr>status = 500, body = flash ''flash.wrong-updating'' ''danger''\<rparr>"
      by (simp add: updateMyUsername_def caught_def)
    then show ?thesis by simp
  next
    case (Inr r0)
    with assms t have "r0 = r" by (simp add: updateMyUsername_def)
    with tc Inr have
      "r = \<lparr>status = 400, body = flash ''flash.username-used'' ''info''\<rparr>
       \<or> r = \<lparr>status = 400, body = flash ''flash.username-taken'' ''info''\<rparr>
       \<or> (\<exists>sub. b = Some sub \<and> (\<exists>m. validationError req = Some m \<and>
              r = \<lparr>status = 400, body = flash m ''info''\<rparr>))
       \<or> (\<exists>sub. b = Some sub \<and>
              r = \<lparr>status = 400,
                   body = flash (''Username '' @ new_username sub @ '' ''
                            @ error (isValidUsername d (new_username sub))) ''info''\<rparr>)
       \<or> (\<exists>sub. r = \<lparr>status = 200,
                   body = [(''message'', JString ''flash.username-updated''),
                           (''type'', JString ''success''),
                           (''username'', JString (trim sub))]\<rparr>)"
      by auto
    then show ?thesis
      by (elim disjE exE conjE)
         (simp_all add: message_keys_def, simp add: message_of_def type_of_def flash_shaped_def)
  qed
qed

lemma email_replies:
  assumes "updateMyEmail d req b s = (Inr r, s')"
  shows "email_response_schema r
           = \<lparr>status = 400, body = flash ''Email format is invalid'' ''danger''\<rparr>
         \<or> email_response_schema r
           = \<lparr>status = 400, body = flash (same_email_message (toLowerCase b)) ''info''\<rparr>
         \<or> email_response_schema r
           = \<lparr>status = 200, body = flash ''flash.email-valid'' ''success''\<rparr>"
proof -
  from updateMyEmail_cases[OF assms] have
    "r = \<lparr>status = 400, body = flash ''Email format is invalid'' ''danger''\<rparr>
     \<or> r = \<lparr>status = 400,
             body = [(''type'', JString ''info''),
                     (''message'', JString (same_email_message (toLowerCase b)))]\<rparr>
     \<or> r = \<lparr>status = 200,
             body = [(''type'', JString ''info''),
                     (''message'', JString (limit_message (toLowerCase b)
                        (formatLimit d fiveMinuteLimit)))]\<rparr>"
    by auto
  then show ?thesis
    by (elim disjE) (simp_all add: email_response_schema_def message_of_def type_of_def flash_def)
qed

lemma simple_replies:
  assumes "endpoint_of p \<noteq> UpdateMyEmail" and "endpoint_of p \<noteq> UpdateMyUsername"
      and "handler d req p s = (res, s')"
  shows "\<exists>r. res = Inr r \<and> flash_shaped r \<and> (\<exists>m \<in> set message_keys. message_of r = Some m)"
  using simple_handler_cases[OF assms] by auto

section \<open>The answers of the routes\<close>

lemma handler_throws_only_email:
  assumes "handler d req p s = (Inl e, s')"
  shows "endpoint_of p = UpdateMyEmail \<and> validationError req = None \<and>
         new_calls s s' = [(FindUniqueOrThrow (session_user_id req), Some e)]"
proof (cases "endpoint_of p = UpdateMyEmail \<or> endpoint_of p = UpdateMyUsername")
  case False
  with simple_handler_cases[OF _ _ assms] show ?thesis by auto
next
  case True
  then show ?thesis
  proof (cases p)
    case (EmailBody b)
    with assms have "updateMyEmail d req b s = (Inl e, s')" by simp
    from updateMyEmail_cases[OF this] EmailBody show ?thesis by auto
  next
    case (UsernameBody b)
    with assms show ?thesis by (auto split: prod.splits)
  qed simp_all
qed

lemma handler_replies:
  assumes "handler d req p s = (Inr r0, s')"
      and "r = response_schema (options_of (endpoint_of p)) r0"
  shows "flash_shaped r \<and>
         (\<exists>m. message_of r = Some m \<and>
            (m \<in> set message_keys
             \<or> (\<exists>b. p = EmailBody b \<and>
                   (m = ''Email format is invalid'' \<or> m = same_email_message (toLowerCase b)))
             \<or> (\<exists>sub. p = UsernameBody (Some sub) \<and>
                   (validationError req = Some m \<or>
                    m = ''Username '' @ new_username sub @ '' ''
                          @ error (isValidUsername d (new_username sub))))))"
proof (cases "endpoint_of p = UpdateMyEmail \<or> endpoint_of p = UpdateMyUsername")
  case False
  with simple_replies[OF _ _ assms(1)] assms(2) show ?thesis
    by (auto simp: response_schema_of)
next
  case True
  then show ?thesis
  proof (cases p)
    case (EmailBody b)
    with assms have "updateMyEmail d req b s = (Inr r0, s')" "r = email_response_schema r0"
      by simp_all
    from email_replies[OF this(1)] this(2) EmailBody show ?thesis
      by (auto simp: message_keys_def)
  next
    case (UsernameBody b)
    with assms have "updateMyUsername d req b s = (r0, s')" "r = r0"
      by (auto split: prod.splits)
    from username_replies[OF this(1)] this(2) UsernameBody show ?thesis by auto
  qed simp_all
qed

lemma handle_request_summary:
  assumes "handle_request d req s = (out, s')"
  shows "(\<exists>r. out = Sent r \<and> flash_shaped r \<and>
            (\<exists>m. message_of r = Some m \<and>
               (m \<in> set message_keys
                \<or> (\<exists>b. payload req = EmailBody b \<and>
                      (m = ''Email format is invalid'' \<or> m = same_email_message (toLowerCase b)))
                \<or> (\<exists>sub. payload req = UsernameBody (Some sub) \<and>
                      (validationError req = Some m \<or>
                       m = ''Username '' @ new_username sub @ '' ''
                             @ error (isValidUsername d (new_username sub)))))))
       \<or> (\<exists>m. out = Delegated (ValidationError m) \<and> endpoint_of (payload req) = UpdateMyAbout \<and>
               validationError req = Some m \<and> s' = s)
       \<or> (\<exists>x. out = Delegated (HandlerError x) \<and> endpoint_of (payload req) = UpdateMyEmail \<and>
               validationError req = None \<and>
               new_calls s s' = [(FindUniqueOrThrow (session_user_id req), Some x)])"
proof (cases "\<exists>m. validationError req = Some m \<and>
                \<not> attachValidation (options_of (endpoint_of (payload req)))")
  case True
  then obtain m where m: "validationError req = Some m"
    "\<not> attachValidation (options_of (endpoint_of (payload req)))" by auto
  with assms have out: "out = route_error (options_of (endpoint_of (payload req))) (ValidationError m)"
    "s' = s" by (simp_all add: handle_request_def)
  show ?thesis
  proof (cases "endpoint_of (payload req) = UpdateMyAbout")
    case True
    with out m show ?thesis by (simp add: route_error_def)
  next
    case False
    with m(2) have "errorHandler (options_of (endpoint_of (payload req))) = Some updateErrorHandler"
      by (cases "endpoint_of (payload req)") simp_all
    with out show ?thesis by (simp add: route_error_def updateErrorHandler_def)
  qed
next
  case False
  with assms have run: "run_handler d req s = (out, s')"
    by (auto simp: handle_request_def Let_def split: option.splits if_splits)
  obtain res s0 where h: "handler d req (payload req) s = (res, s0)"
    by (cases "handler d req (payload req) s")
  show ?thesis
  proof (cases res)
    case (Inr r0)
    with run h have "out = Sent (response_schema (options_of (endpoint_of (payload req))) r0)"
      "s0 = s'" by (simp_all add: run_handler_def)
    with handler_replies[OF h[unfolded Inr] refl] show ?thesis by simp
  next
    case (Inl e)
    note t = handler_throws_only_email[OF h[unfolded Inl]]
    with run h Inl have "out = Delegated (HandlerError e)" "s0 = s'"
      by (simp_all add: run_handler_def route_error_def)
    with t show ?thesis by simp
  qed
qed

text \<open>
  Claim C1, as amended. The message of a reply that the routes' code sends is one of
  the thirteen translation keys of \<open>message_keys\<close>, always so on the nine routes other
  than /update-my-email and /update-my-username. /update-my-email also answers with the
  text \<open>Email format is invalid\<close> and with a text built from the submitted email (it
  is already associated with the account). /update-my-username also answers with the
  message of the validation error and with \<open>Username\<close>, the new username and the
  reason \<open>isValidUsername\<close> gives.
\<close>

theorem reply_messages:
  assumes "handle_request d req s = (Sent r, s')"
  shows "(\<exists>m. message_of r = Some m \<and>
            (m \<in> set message_keys
             \<or> (\<exists>b. payload req = EmailBody b \<and>
                   (m = ''Email format is invalid'' \<or> m = same_email_message (toLowerCase b)))
             \<or> (\<exists>sub. payload req = UsernameBody (Some sub) \<and>
                   (validationError req = Some m \<or>
                    m = ''Username '' @ new_username sub @ '' ''
                          @ error (isValidUsername d (new_username sub)))))) \<and>
         (endpoint_of (payload req) \<noteq> UpdateMyEmail \<and>
          endpoint_of (payload req) \<noteq> UpdateMyUsername \<longrightarrow>
            (\<exists>m \<in> set message_keys. message_of r = Some m))"
proof -
  from handle_request_summary[OF assms]
  have a: "\<exists>m. message_of r = Some m \<and>
            (m \<in> set message_keys
             \<or> (\<exists>b. payload req = EmailBody b \<and>
                   (m = ''Email format is invalid'' \<or> m = same_email_message (toLowerCase b)))
             \<or> (\<exists>sub. payload req = UsernameBody (Some sub) \<and>
                   (validationError req = Some m \<or>
                    m = ''Username '' @ new_username sub @ '' ''
                          @ error (isValidUsername d (new_username sub)))))"
    by simp
  then have "endpoint_of (payload req) \<noteq> UpdateMyEmail \<and>
          endpoint_of (payload req) \<noteq> UpdateMyUsername \<longrightarrow>
            (\<exists>m \<in> set message_keys. message_of r = Some m)"
    by auto
  with a show ?thesis by blast
qed

text \<open>
  Claim C1 as stated fails: /update-my-email, given the caller's own email, answers with
  a text built from that email, and /update-my-username, given a name that
  \<open>isValidUsername\<close> rejects, with a text built from the name.
\<close>

theorem fixed_keys_counterexample:
  "(case fst (handle_request example_deps
                (example_request (EmailBody ''FOO@bar.com'')) example_server) of
      Sent r \<Rightarrow> message_of r
    | Delegated e \<Rightarrow> None)
     = Some (''foo@bar.com is already associated with this account.'' @ [CHR 0x0A]
             @ ''You can update a new email address instead.'') \<and>
   (''foo@bar.com is already associated with this account.'' @ [CHR 0x0A]
      @ ''You can update a new email address instead.'') \<notin> set message_keys \<and>
   (case fst (handle_request example_deps
                (example_request (UsernameBody (Some ''ab''))) example_server) of
      Sent r \<Rightarrow> message_of r
    | Delegated e \<Rightarrow> None)
     = Some ''Username ab is too short'' \<and>
   ''Username ab is too short'' \<notin> set message_keys"
  by (simp add: handle_request_def run_handler_def updateMyEmail_def updateMyUsername_def
        updateMyUsername_try_def orm_defs example_defs message_of_def type_of_def
        message_keys_def email_response_schema_def flash_def trim_def is_space_def
        toLowerCase_def lower_char_def Let_def)

text \<open>Claim C1, as amended, at an example: a change of theme.\<close>

theorem reply_messages_witness:
  "fst (handle_request example_deps (example_request (ThemeBody ''night'')) example_server)
     = Sent \<lparr>status = 200, body = flash ''flash.updated-themes'' ''success''\<rparr> \<and>
   endpoint_of (payload (example_request (ThemeBody ''night''))) = UpdateMyTheme \<and>
   (\<exists>m \<in> set message_keys.
      message_of \<lparr>status = 200, body = flash ''flash.updated-themes'' ''success''\<rparr> = Some m)"
proof -
  let ?req = "example_request (ThemeBody ''night'')"
  let ?r = "\<lparr>status = 200, body = flash ''flash.updated-themes'' ''success''\<rparr>"
  obtain out s' where run: "handle_request example_deps ?req example_server = (out, s')"
    by (cases "handle_request example_deps ?req example_server")
  then have out: "out = Sent ?r"
    by (auto simp: handle_request_def run_handler_def updateMyTheme_def orm_defs example_defs)
  have ep: "endpoint_of (payload ?req) = UpdateMyTheme" by (simp add: example_request_def)
  from reply_messages[OF run[unfolded out]] ep
  have "\<exists>m \<in> set message_keys. message_of ?r = Some m" by simp
  with run out ep show ?thesis by simp
qed

section \<open>A validation failure on /update-my-about\<close>

text \<open>
  Claim C5 at the request on which the code departs from it. The route
  /update-my-about has a body schema, but neither \<open>attachValidation\<close> nor an
  \<open>errorHandler\<close>: a body that fails the schema never reaches the handler, nothing is
  stored, and the routes' code sends no object with \<open>message\<close> and \<open>type\<close>; the error
  is left to the error handler of the server. The other routes answer such a request
  themselves: /update-my-theme, with \<open>updateErrorHandler\<close>, sends 400 and the
  \<open>flash.wrong-updating\<close> message.
\<close>

theorem update_my_about_validation_failure:
  "errorHandler (options_of UpdateMyAbout) = None \<and>
   \<not> attachValidation (options_of UpdateMyAbout) \<and>
   handle_request example_deps
       ((example_request (AboutBody \<lparr>req_about = ''hi'', req_name = ''Cam'',
                                     req_location = ''Here'', req_picture = None\<rparr>))
          \<lparr>validationError := Some ''body must have required property about''\<rparr>)
       example_server
     = (Delegated (ValidationError ''body must have required property about''),
        example_server) \<and>
   handle_request example_deps
       ((example_request (ThemeBody ''blue''))
          \<lparr>validationError := Some ''body/theme must be equal to one of the allowed values''\<rparr>)
       example_server
     = (Sent \<lparr>status = 400, body = flash ''flash.wrong-updating'' ''danger''\<rparr>,
        example_server) \<and>
   errorHandler (options_of UpdateMyTheme) = Some updateErrorHandler"
  by (simp add: handle_request_def route_error_def updateErrorHandler_def
        example_request_def)

section \<open>/update-my-about\<close>

lemma map_update_first:
  "(\<And>x. g (f x) = g x) \<Longrightarrow> map g (update_first P f us) = map g us"
  by (induction us) auto

lemma prisma_update_keeps:
  assumes "\<And>x. g (f x) = g x"
  shows "map g (users (snd (prisma_update i f s))) = map g (users s)"
proof -
  obtain r s' where p: "prisma_update i f s = (r, s')" by (cases "prisma_update i f s")
  from prisma_update_cases(1)[OF p] assms show ?thesis
    unfolding p by (auto simp: map_update_first)
qed

text \<open>
  Claim C8. \<open>isPictureWithProtocol\<close> is true exactly when its argument parses as a
  URL whose protocol is \<open>http:\<close> or \<open>https:\<close> (the \<open>URL\<close> constructor rejects
  the empty string). When the picture of the request is absent, empty, not a URL, or a
  URL with another protocol, the handler of /update-my-about is the update of
  \<open>about\<close>, \<open>name\<close> and \<open>location\<close> alone: no stored picture changes, and when
  the update goes through the caller's document holds the three new values and is
  otherwise what it was.
\<close>

theorem update_my_about_picture:
  "(url_protocol d [] = None \<longrightarrow>
      isPictureWithProtocol d p =
        (\<exists>str protocol. p = Some str \<and> url_protocol d str = Some protocol \<and>
                         (protocol = ''http:'' \<or> protocol = ''https:''))) \<and>
   ((req_picture b = None \<or> req_picture b = Some [] \<or>
     (\<exists>str. req_picture b = Some str \<and>
        (url_protocol d str = None \<or>
         (\<exists>protocol. url_protocol d str = Some protocol \<and>
                      protocol \<noteq> ''http:'' \<and> protocol \<noteq> ''https:'')))) \<longrightarrow>
      updateMyAbout d req b s =
        (case prisma_update (session_user_id req)
                (\<lambda>u. u\<lparr>about := req_about b, name := req_name b, location := req_location b\<rparr>) s of
           (Inr u, s') \<Rightarrow> (\<lparr>status = 200, body = flash ''flash.updated-about-me'' ''success''\<rparr>, s')
         | (Inl e, s') \<Rightarrow> caught e s') \<and>
      map picture (users (snd (updateMyAbout d req b s))) = map picture (users s) \<and>
      (\<forall>u. find_user (session_user_id req) (users s) = Some u \<and>
           status (fst (updateMyAbout d req b s)) = 200 \<longrightarrow>
           find_user (session_user_id req) (users (snd (updateMyAbout d req b s)))
             = Some (u\<lparr>about := req_about b, name := req_name b, location := req_location b\<rparr>)))"
proof (intro conjI impI)
  assume "url_protocol d [] = None"
  then show "isPictureWithProtocol d p =
        (\<exists>str protocol. p = Some str \<and> url_protocol d str = Some protocol \<and>
                         (protocol = ''http:'' \<or> protocol = ''https:''))"
    by (cases p) (auto simp: isPictureWithProtocol_def split: option.splits)
next
  let ?i = "session_user_id req"
  let ?f = "\<lambda>u::user. u\<lparr>about := req_about b, name := req_name b, location := req_location b\<rparr>"
  let ?ok = "\<lparr>status = 200, body = flash ''flash.updated-about-me'' ''success''\<rparr>"
  assume a: "req_picture b = None \<or> req_picture b = Some [] \<or>
     (\<exists>str. req_picture b = Some str \<and>
        (url_protocol d str = None \<or>
         (\<exists>protocol. url_protocol d str = Some protocol \<and>
                      protocol \<noteq> ''http:'' \<and> protocol \<noteq> ''https:'')))"
  then have no: "\<not> isPictureWithProtocol d (req_picture b)"
    by (auto simp: isPictureWithProtocol_def)
  then show eq: "updateMyAbout d req b s =
        (case prisma_update ?i ?f s of
           (Inr u, s') \<Rightarrow> (?ok, s')
         | (Inl e, s') \<Rightarrow> caught e s')"
    by (simp add: updateMyAbout_def Let_def)
  obtain x s1 where p: "prisma_update ?i ?f s = (x, s1)" by (cases "prisma_update ?i ?f s")
  have s1: "users (snd (updateMyAbout d req b s)) = users s1"
    unfolding eq p by (cases x) (simp_all add: caught_def log_error_def)
  from prisma_update_keeps[of picture ?f ?i s] p
  show "map picture (users (snd (updateMyAbout d req b s))) = map picture (users s)"
    unfolding s1 by simp
  show "\<forall>u. find_user ?i (users s) = Some u \<and> status (fst (updateMyAbout d req b s)) = 200 \<longrightarrow>
           find_user ?i (users (snd (updateMyAbout d req b s))) = Some (?f u)"
  proof (intro allI impI)
    fix u assume u: "find_user ?i (users s) = Some u \<and> status (fst (updateMyAbout d req b s)) = 200"
    with eq p have "\<exists>y. x = Inr y" by (cases x) (simp_all add: caught_def)
    with prisma_update_cases(1)[OF p]
    have "users s1 = update_first (\<lambda>x. uid x = ?i) ?f (users s)" by auto
    with u show "find_user ?i (users (snd (updateMyAbout d req b s))) = Some (?f u)"
      unfolding s1 by (simp add: find_user_update_first)
  qed
qed

text \<open>Claim C8 at an example: a picture with the protocol \<open>ftp:\<close>.\<close>

theorem update_my_about_picture_witness:
  "url_protocol example_deps [] = None \<and>
   isPictureWithProtocol example_deps (Some ''https://example.com/b.png'') \<and>
   \<not> isPictureWithProtocol example_deps (Some ''ftp://example.com/b.png'') \<and>
   find_user ''u1'' (users example_server) = Some example_user \<and>
   (case updateMyAbout example_deps
           (example_request (AboutBody \<lparr>req_about = ''new'', req_name = ''Camper'',
              req_location = ''There'', req_picture = Some ''ftp://example.com/b.png''\<rparr>))
           \<lparr>req_about = ''new'', req_name = ''Camper'', req_location = ''There'',
            req_picture = Some ''ftp://example.com/b.png''\<rparr> example_server of
      (r, s') \<Rightarrow>
        status r = 200 \<and>
        map picture (users s') = [''https://example.com/a.png'', ''https://example.com/a.png''] \<and>
        find_user ''u1'' (users s')
          = Some (example_user\<lparr>about := ''new'', name := ''Camper'', location := ''There''\<rparr>))"
proof -
  let ?b = "\<lparr>req_about = ''new'', req_name = ''Camper'', req_location = ''There'',
            req_picture = Some ''ftp://example.com/b.png''\<rparr>"
  let ?req = "example_request (AboutBody ?b)"
  have e: "url_protocol example_deps [] = None" by (simp add: example_deps_def)
  have ftp: "url_protocol example_deps ''ftp://example.com/b.png'' = Some ''ftp:''"
    by (simp add: example_deps_def)
  have https: "url_protocol example_deps ''https://example.com/b.png'' = Some ''https:''"
    by (simp add: example_deps_def)
  have u: "find_user ''u1'' (users example_server) = Some example_user"
    by (simp add: find_user_def example_defs)
  have st: "status (fst (updateMyAbout example_deps ?req ?b example_server)) = 200"
    by (simp add: updateMyAbout_def isPictureWithProtocol_def orm_defs example_defs)
  have i: "session_user_id ?req = ''u1''" by (simp add: example_request_def)
  have pics: "map picture (users example_server)
      = [''https://example.com/a.png'', ''https://example.com/a.png'']"
    by (simp add: example_defs)
  let ?run = "updateMyAbout example_deps ?req ?b example_server"
  note T1 = update_my_about_picture[of example_deps "Some ''https://example.com/b.png''" ?b ?req example_server]
  note T2 = update_my_about_picture[of example_deps "Some ''ftp://example.com/b.png''" ?b ?req example_server]
  from T1 e https have yes: "isPictureWithProtocol example_deps (Some ''https://example.com/b.png'')"
    by simp
  from T2 e ftp have no: "\<not> isPictureWithProtocol example_deps (Some ''ftp://example.com/b.png'')"
    by simp
  have prem: "req_picture ?b = None \<or> req_picture ?b = Some [] \<or>
     (\<exists>str. req_picture ?b = Some str \<and>
        (url_protocol example_deps str = None \<or>
         (\<exists>protocol. url_protocol example_deps str = Some protocol \<and>
                      protocol \<noteq> ''http:'' \<and> protocol \<noteq> ''https:'')))"
    using ftp by simp
  from T2[THEN conjunct2, THEN mp, OF prem]
  have B: "map picture (users (snd ?run)) = map picture (users example_server)"
    and C: "\<forall>u. find_user (session_user_id ?req) (users example_server) = Some u \<and>
              status (fst ?run) = 200 \<longrightarrow>
              find_user (session_user_id ?req) (users (snd ?run))
                = Some (u\<lparr>about := req_about ?b, name := req_name ?b, location := req_location ?b\<rparr>)"
    by blast+
  from C u st i have D: "find_user ''u1'' (users (snd ?run))
      = Some (example_user\<lparr>about := ''new'', name := ''Camper'', location := ''There''\<rparr>)"
    by simp
  from e yes no u st B D pics show ?thesis
    by (simp add: case_prod_beta)
qed

section \<open>/update-my-username\<close>

text \<open>
  Claim C9, as amended. For a caller whose document exists and a submitted name
  \<open>sub\<close>, the new username is \<open>sub\<close> trimmed and lowercased. When the new username
  is profane, on the blocklist, or differs from the lowercased form of the caller's
  stored username and is the username of a document (\<open>username_refused\<close>), no
  document changes and the status is 400 or 500. The answer is status 400 with
  \<open>{ message: 'flash.username-taken', type: 'info' }\<close> when, besides, the submitted
  name is not the caller's own (\<open>username_unchanged\<close>), the request passed validation,
  \<open>isValidUsername\<close> accepts the new username and no call of the ORM threw.
  Whatever happens, the documents are unchanged or the caller's document has got the
  lowercased, trimmed submitted name as \<open>username\<close> and the trimmed submitted name as
  \<open>usernameDisplay\<close>; a reply with status 200 means the latter.
\<close>

theorem update_my_username_refusals:
  assumes "find_user (session_user_id req) (users s) = Some u"
      and "updateMyUsername d req (Some sub) s = (r, s')"
  shows "(username_refused d s u (new_username sub) \<longrightarrow>
            users s' = users s \<and> (status r = 400 \<or> status r = 500)) \<and>
         (username_refused d s u (new_username sub) \<and> \<not> username_unchanged u sub \<and>
          validationError req = None \<and> valid (isValidUsername d (new_username sub)) \<and>
          status r \<noteq> 500 \<longrightarrow>
            r = \<lparr>status = 400, body = flash ''flash.username-taken'' ''info''\<rparr>) \<and>
         (users s' = users s \<or>
          users s' = update_first (\<lambda>x. uid x = session_user_id req)
                       (\<lambda>x. x\<lparr>username := toLowerCase (trim sub),
                              usernameDisplay := Some (trim sub)\<rparr>) (users s)) \<and>
         (status r = 200 \<longrightarrow>
            users s' = update_first (\<lambda>x. uid x = session_user_id req)
                         (\<lambda>x. x\<lparr>username := toLowerCase (trim sub),
                                usernameDisplay := Some (trim sub)\<rparr>) (users s) \<and>
            \<not> username_refused d s u (new_username sub) \<and>
            find_user (session_user_id req) (users s')
              = Some (u\<lparr>username := toLowerCase (trim sub), usernameDisplay := Some (trim sub)\<rparr>))"
proof -
  obtain res s0 where t: "updateMyUsername_try d req (Some sub) s = (res, s0)"
    by (cases "updateMyUsername_try d req (Some sub) s")
  note tc = updateMyUsername_try_cases[OF t]
  have us: "users s' = users s0"
    using assms(2) t by (auto simp: updateMyUsername_def caught_def log_error_def split: sum.splits)
  have r: "(\<exists>e. res = Inl e \<and> r = \<lparr>status = 500, body = flash ''flash.wrong-updating'' ''danger''\<rparr>)
           \<or> res = Inr r"
    using assms(2) t by (auto simp: updateMyUsername_def caught_def split: sum.splits)
  have c1: "username_refused d s u (new_username sub) \<longrightarrow>
            users s' = users s \<and> (status r = 400 \<or> status r = 500)"
    using tc r assms(1) unfolding us by auto
  have c2: "username_refused d s u (new_username sub) \<and> \<not> username_unchanged u sub \<and>
          validationError req = None \<and> valid (isValidUsername d (new_username sub)) \<and>
          status r \<noteq> 500 \<longrightarrow>
            r = \<lparr>status = 400, body = flash ''flash.username-taken'' ''info''\<rparr>"
    using tc r assms(1) by auto
  have c3: "users s' = users s \<or>
          users s' = update_first (\<lambda>x. uid x = session_user_id req)
                       (\<lambda>x. x\<lparr>username := toLowerCase (trim sub),
                              usernameDisplay := Some (trim sub)\<rparr>) (users s)"
    using tc unfolding us by (auto simp: new_username_def)
  have c4: "status r = 200 \<longrightarrow>
            users s' = update_first (\<lambda>x. uid x = session_user_id req)
                         (\<lambda>x. x\<lparr>username := toLowerCase (trim sub),
                                usernameDisplay := Some (trim sub)\<rparr>) (users s) \<and>
            \<not> username_refused d s u (new_username sub)"
    using tc r assms(1) unfolding us by (auto simp: new_username_def)
  have c5: "status r = 200 \<longrightarrow> find_user (session_user_id req) (users s')
              = Some (u\<lparr>username := toLowerCase (trim sub), usernameDisplay := Some (trim sub)\<rparr>)"
    using c4 assms(1) by (auto simp: find_user_update_first)
  from c1 c2 c3 c4 c5 show ?thesis by blast
qed


lemma handle_request_username:
  "payload req = UsernameBody b \<Longrightarrow>
   handle_request d req s = (case updateMyUsername d req b s of (r, s') \<Rightarrow> (Sent r, s'))"
  by (auto simp add: handle_request_def run_handler_def response_schema_of Let_def
        split: option.splits prod.splits)

text \<open>
  Claim C9, as amended, at examples: a name that another user holds, and a free name.
\<close>

theorem update_my_username_refusals_witness:
  "find_user ''u1'' (users example_server) = Some example_user \<and>
   username_refused example_deps example_server example_user (new_username ''Quincy'') \<and>
   \<not> username_unchanged example_user ''Quincy'' \<and>
   valid (isValidUsername example_deps (new_username ''Quincy'')) \<and>
   (case updateMyUsername example_deps (example_request (UsernameBody (Some ''Quincy'')))
           (Some ''Quincy'') example_server of
      (r, s') \<Rightarrow> r = \<lparr>status = 400, body = flash ''flash.username-taken'' ''info''\<rparr> \<and>
                 users s' = users example_server) \<and>
   (case updateMyUsername example_deps (example_request (UsernameBody (Some '' NewName '')))
           (Some '' NewName '') example_server of
      (r, s') \<Rightarrow> status r = 200 \<and>
                 find_user ''u1'' (users s')
                   = Some (example_user\<lparr>username := ''newname'', usernameDisplay := Some ''NewName''\<rparr>))"
proof -
  let ?q = "example_request (UsernameBody (Some ''Quincy''))"
  let ?n = "example_request (UsernameBody (Some '' NewName ''))"
  have u: "find_user (session_user_id ?q) (users example_server) = Some example_user"
    "find_user (session_user_id ?n) (users example_server) = Some example_user"
    by (simp_all add: find_user_def example_defs)
  have nq: "new_username ''Quincy'' = ''quincy''"
    by (simp add: new_username_def trim_def is_space_def toLowerCase_def lower_char_def)
  have nn: "toLowerCase (trim '' NewName '') = ''newname''" "trim '' NewName '' = ''NewName''"
    by (simp_all add: trim_def is_space_def toLowerCase_def lower_char_def)
  have refused: "username_refused example_deps example_server example_user (new_username ''Quincy'')"
    unfolding nq
    by (simp add: username_refused_def example_defs toLowerCase_def lower_char_def)
  have changed: "\<not> username_unchanged example_user ''Quincy''"
    unfolding username_unchanged_def nq
    by (simp add: example_defs toLowerCase_def lower_char_def)
  have ok: "valid (isValidUsername example_deps (new_username ''Quincy''))"
    unfolding nq by (simp add: example_deps_def)
  obtain r1 s1 where run1: "updateMyUsername example_deps ?q (Some ''Quincy'') example_server = (r1, s1)"
    by (cases "updateMyUsername example_deps ?q (Some ''Quincy'') example_server")
  then have st1: "status r1 \<noteq> 500"
    by (auto simp: updateMyUsername_def updateMyUsername_try_def orm_defs example_defs
          trim_def is_space_def toLowerCase_def lower_char_def Let_def)
  obtain r2 s2 where run2: "updateMyUsername example_deps ?n (Some '' NewName '') example_server = (r2, s2)"
    by (cases "updateMyUsername example_deps ?n (Some '' NewName '') example_server")
  then have st2: "status r2 = 200"
    by (auto simp: updateMyUsername_def updateMyUsername_try_def orm_defs example_defs
          trim_def is_space_def toLowerCase_def lower_char_def Let_def)
  have v: "validationError ?q = None" by (simp add: example_request_def)
  note T1 = update_my_username_refusals[OF u(1) run1]
  note T2 = update_my_username_refusals[OF u(2) run2]
  from T1 refused changed ok st1 v
  have a: "r1 = \<lparr>status = 400, body = flash ''flash.username-taken'' ''info''\<rparr>"
    "users s1 = users example_server" by blast+
  from T2 st2 have b: "find_user (session_user_id ?n) (users s2)
              = Some (example_user\<lparr>username := toLowerCase (trim '' NewName ''),
                                    usernameDisplay := Some (trim '' NewName '')\<rparr>)"
    by blast
  from u refused changed ok a b st2 show ?thesis
    unfolding run1 run2 by (simp add: example_request_def nn toLowerCase_def lower_char_def)
qed

text \<open>
  Claim C9 as stated fails in two ways. A caller whose own username is on the blocklist
  and who submits it again is told \<open>flash.username-used\<close>, not
  \<open>flash.username-taken\<close>, because the handler compares with the caller's name first.
  And the handler asks the database whether the name is held only when the new username
  differs from the lowercased form of the caller's stored username: a caller stored as
  \<open>Camper\<close> who submits \<open>camper\<close>, a name that differs from the stored one and that
  another user holds, gets status 200 and the name.
\<close>

theorem username_taken_counterexample:
  "username_refused example_deps
     (example_server\<lparr>users := [example_user\<lparr>username := ''www'', usernameDisplay := Some ''www''\<rparr>]\<rparr>)
     (example_user\<lparr>username := ''www'', usernameDisplay := Some ''www''\<rparr>) (new_username ''www'') \<and>
   fst (handle_request example_deps (example_request (UsernameBody (Some ''www'')))
     (example_server\<lparr>users := [example_user\<lparr>username := ''www'', usernameDisplay := Some ''www''\<rparr>]\<rparr>))
     = Sent \<lparr>status = 400, body = flash ''flash.username-used'' ''info''\<rparr> \<and>
   \<lparr>status = 400, body = flash ''flash.username-used'' ''info''\<rparr>
     \<noteq> \<lparr>status = 400, body = flash ''flash.username-taken'' ''info''\<rparr> \<and>
   new_username ''camper'' \<noteq> ''Camper'' \<and>
   username (other_user\<lparr>username := ''camper''\<rparr>) = new_username ''camper'' \<and>
   (case handle_request example_deps (example_request (UsernameBody (Some ''camper'')))
           (example_server\<lparr>users := [example_user\<lparr>username := ''Camper''\<rparr>,
                                      other_user\<lparr>username := ''camper''\<rparr>]\<rparr>) of
      (out, s') \<Rightarrow>
        out = Sent \<lparr>status = 200,
                    body = flash ''flash.username-updated'' ''success''
                             @ [(''username'', JString ''camper'')]\<rparr> \<and>
        map username (users s') = [''camper'', ''camper''])"
  by (simp add: handle_request_username username_refused_def new_username_def
        updateMyUsername_def updateMyUsername_try_def orm_defs example_defs flash_def
        trim_def is_space_def toLowerCase_def lower_char_def Let_def)

section \<open>/update-my-email\<close>

lemma handle_request_email:
  assumes "payload req = EmailBody b"
  shows "handle_request d req s =
           (case updateMyEmail d req b s of
              (Inr r, s') \<Rightarrow> (Sent (email_response_schema r), s')
            | (Inl e, s') \<Rightarrow> (Delegated (HandlerError e), s'))"
  using assms
  by (auto simp: handle_request_def run_handler_def route_error_def Let_def
           split: option.splits prod.splits sum.splits)

text \<open>
  The variable \<open>fiveMinuteLimit\<close> is declared and never assigned, and \<open>isPast\<close> is
  false of \<open>undefined\<close>: the branch that updates the email is never taken. No request
  to /update-my-email changes a document, and a new email that passed validation is
  answered, after the response schema of status 200, with \<open>flash.email-valid\<close>.
\<close>

lemma email_never_stored:
  assumes "payload req = EmailBody b"
  shows "users (snd (handle_request d req s)) = users s"
proof -
  obtain res s' where h: "updateMyEmail d req b s = (res, s')"
    by (cases "updateMyEmail d req b s")
  from updateMyEmail_cases[OF h] have "users s' = users s" by simp
  with h show ?thesis
    unfolding handle_request_email[OF assms] by (cases res) simp_all
qed

lemma new_email_answer:
  assumes "payload req = EmailBody b"
      and "validationError req = None"
      and "find_user (session_user_id req) (users s) = Some u"
      and "toLowerCase b \<noteq> toLowerCase (email u)"
      and "handle_request d req s = (Sent r, s')"
  shows "r = \<lparr>status = 200, body = flash ''flash.email-valid'' ''success''\<rparr> \<and>
         users s' = users s"
proof -
  obtain res s0 where h: "updateMyEmail d req b s = (res, s0)"
    by (cases "updateMyEmail d req b s")
  with assms(5) obtain r0 where r0: "res = Inr r0" "r = email_response_schema r0" "s0 = s'"
    unfolding handle_request_email[OF assms(1)] by (cases res) auto
  from updateMyEmail_cases[OF h] assms(2,3,4) r0
  show ?thesis by (auto simp: email_response_schema_def)
qed




section \<open>The locale tests, checked\<close>

text \<open>
  Claim C6, as amended. The suite has one block per language of
  \<open>availableLangs.client\<close>, named after it. The block checks that exactly the five
  files translations.json, motivation.json, intro.json, meta-tags.json and links.json
  exist in the directory of the language under \<open>locales\<close>, and that the language is
  among the lowercased keys of \<open>LangNames\<close> and among the lowercased keys of
  \<open>LangCodes\<close>. The language itself is not lowercased: for a language written in
  lower case the two checks are a comparison that ignores case.
\<close>

theorem locale_tests_per_language:
  "map fst (locale_tests dirname cfg)
     = map (\<lambda>lang. ''-- '' @ lang @ '' --'') (availableLangs_client cfg) \<and>
   (\<forall>lang \<in> set (availableLangs_client cfg).
      (''-- '' @ lang @ '' --'', lang_tests (dirname @ ''/locales'') cfg lang)
        \<in> set (locale_tests dirname cfg)) \<and>
   map snd (lang_tests path cfg lang)
     = [ExistsSync (path @ ''/'' @ lang @ ''/translations.json''),
        ExistsSync (path @ ''/'' @ lang @ ''/motivation.json''),
        ExistsSync (path @ ''/'' @ lang @ ''/intro.json''),
        ExistsSync (path @ ''/'' @ lang @ ''/meta-tags.json''),
        ExistsSync (path @ ''/'' @ lang @ ''/links.json''),
        KeysInclude (LangNames_keys cfg) lang,
        KeysInclude (LangCodes_keys cfg) lang] \<and>
   passes existsSync (ExistsSync file) = existsSync file \<and>
   passes existsSync (KeysInclude keys lang) = (\<exists>k \<in> set keys. toLowerCase k = lang) \<and>
   (toLowerCase lang = lang \<longrightarrow>
      passes existsSync (KeysInclude keys lang) = (\<exists>k \<in> set keys. same_ignoring_case k lang))"
  by (auto simp: locale_tests_def lang_tests_def filesThatShouldExist_def same_ignoring_case_def
        comp_def)

text \<open>Claim C6, as amended, at an example: espanol, with the key Espanol.\<close>

theorem locale_tests_per_language_witness:
  "''espanol'' \<in> set (availableLangs_client example_i18n) \<and>
   (''-- espanol --'', lang_tests ''/client/i18n/locales'' example_i18n ''espanol'')
      \<in> set (locale_tests ''/client/i18n'' example_i18n) \<and>
   toLowerCase ''espanol'' = ''espanol'' \<and>
   passes (\<lambda>file. True) (KeysInclude (LangNames_keys example_i18n) ''espanol'') \<and>
   (\<exists>k \<in> set (LangNames_keys example_i18n). same_ignoring_case k ''espanol'')"
proof -
  have l: "toLowerCase ''espanol'' = ''espanol''"
    by (simp add: toLowerCase_def lower_char_def)
  have m: "''espanol'' \<in> set (availableLangs_client example_i18n)"
    by (simp add: example_i18n_def)
  have k: "\<exists>k \<in> set (LangNames_keys example_i18n). toLowerCase k = ''espanol''"
    by (simp add: example_i18n_def toLowerCase_def lower_char_def)
  note T = locale_tests_per_language[of "''/client/i18n''" example_i18n "''/client/i18n/locales''"
      "''espanol''" "\<lambda>file. True" "''x''" "LangNames_keys example_i18n"]
  from T m have a: "(''-- '' @ ''espanol'' @ '' --'',
        lang_tests (''/client/i18n'' @ ''/locales'') example_i18n ''espanol'')
        \<in> set (locale_tests ''/client/i18n'' example_i18n)" by blast
  from T k have b: "passes (\<lambda>file. True) (KeysInclude (LangNames_keys example_i18n) ''espanol'')"
    by blast
  from T l b have c: "\<exists>k \<in> set (LangNames_keys example_i18n). same_ignoring_case k ''espanol''"
    by blast
  from l m a b c show ?thesis by simp
qed

text \<open>
  Claim C6 as stated fails for a language that is not in lower case: English has the
  key English, and the check of the block fails.
\<close>

theorem case_insensitive_counterexample:
  "(''has an entry in the langDisplayNames enum'', KeysInclude [''English''] ''English'')
     \<in> set (lang_tests ''/client/i18n/locales''
              \<lparr>availableLangs_client = [''English''], LangNames_keys = [''English''],
               LangCodes_keys = [''English'']\<rparr> ''English'') \<and>
   same_ignoring_case ''English'' ''English'' \<and>
   \<not> passes (\<lambda>file. True) (KeysInclude [''English''] ''English'')"
  by (simp add: lang_tests_def same_ignoring_case_def toLowerCase_def lower_char_def)

section \<open>The markdown formatter, checked\<close>

lemma handler_for_annotate_other:
  "t \<noteq> ''inlineCode'' \<Longrightarrow>
   handler_for lib exts (annotate_options lib) t = handler_for lib exts plain_options t"
  by (simp add: handler_for_def annotate_options_def plain_options_def)

lemma handler_for_annotate_inlineCode:
  "handler_for lib exts (annotate_options lib) ''inlineCode'' ctx node kids
     = ''<notranslate>'' @ lib_handle lib ''inlineCode'' ctx node kids @ ''</notranslate>''"
  by (simp add: handler_for_def annotate_options_def wrapInlineCode_def
        inlineCode_def notranslateStart_def notranslateEnd_def)

lemma annotate_context:
  "fences (annotate_options lib) = True" "emphasis (annotate_options lib) = ''*''"
  "fences plain_options = True" "emphasis plain_options = ''*''"
  by (simp_all add: annotate_options_def plain_options_def)

lemma handle_node_annotate:
  "handle_node lib exts (annotate_options lib) tree = specified_rendering lib exts tree"
proof (induction tree)
  case (Node t v cs)
  then have m: "map (handle_node lib exts (annotate_options lib)) cs
              = map (specified_rendering lib exts) cs"
    by simp
  show ?case
  proof (cases "t = ''inlineCode''")
    case True
    then show ?thesis
      by (simp add: m annotate_context handler_for_annotate_inlineCode)
  next
    case False
    then show ?thesis
      by (simp add: m annotate_context handler_for_annotate_other)
  qed
qed

lemma handle_node_without_inlineCode:
  "\<not> has_type ''inlineCode'' tree \<Longrightarrow>
   handle_node lib exts (annotate_options lib) tree = handle_node lib exts plain_options tree"
proof (induction tree)
  case (Node t v cs)
  then have t: "t \<noteq> ''inlineCode''" and cs: "\<forall>c \<in> set cs. \<not> has_type ''inlineCode'' c"
    by (auto simp: list_ex_iff)
  with Node.IH
  have m: "map (handle_node lib exts (annotate_options lib)) cs
         = map (handle_node lib exts plain_options) cs"
    by simp
  show ?case
    by (simp only: handle_node.simps m annotate_context handler_for_annotate_other[OF t])
qed

text \<open>
  Claim C7. \<open>annotateCode\<close> and \<open>stringifyMd\<close> build their processors on the same
  parser plugins, remark-parse and then the table-and-strikethrough plugin, and give
  remark-stringify the same \<open>fences: true\<close> and \<open>emphasis: '*'\<close>; the options differ
  in the handlers alone, where \<open>annotateCode\<close> has one entry, for \<open>inlineCode\<close>.
  With the options of \<open>annotateCode\<close> the renderer gives, for every tree, the rendering
  that the specification describes (\<open>specified_rendering\<close>): every inline-code node,
  at the root or below any other node, is the rendering of the default \<open>inlineCode\<close>
  handler between \<open><notranslate>\<close> and \<open></notranslate>\<close>, and a node of any other
  type is rendered by the handler that it has with the options of \<open>stringifyMd\<close>.
  The output of \<open>annotateCode\<close> is that rendering of the tree that the parser makes
  of its text, ended with a line feed; the output of \<open>stringifyMd\<close> is the rendering
  of the root of its nodes with no handler of the options, ended with a line feed; and
  a tree without inline code is rendered the same with both.
\<close>

theorem annotateCode_wraps_every_inline_code:
  "parser_plugins (annotate_processor lib) = [RemarkParse, TableAndStrikethrough] \<and>
   parser_plugins stringify_processor = [RemarkParse, TableAndStrikethrough] \<and>
   stringify_options_of (annotate_processor lib) = Some (annotate_options lib) \<and>
   stringify_options_of stringify_processor = Some plain_options \<and>
   fences (annotate_options lib) = True \<and> fences plain_options = True \<and>
   emphasis (annotate_options lib) = ''*'' \<and> emphasis plain_options = ''*'' \<and>
   handlers (annotate_options lib) = [(''inlineCode'', wrapInlineCode lib)] \<and>
   handlers plain_options = [] \<and>
   handle_node lib exts (annotate_options lib) tree = specified_rendering lib exts tree \<and>
   annotateCode lib md
     = Some (end_with_line_feed
               (specified_rendering lib
                  (extension_handlers lib [RemarkParse, TableAndStrikethrough])
                  (md_parse lib [RemarkParse, TableAndStrikethrough] md))) \<and>
   stringifyMd lib nodes
     = Some (end_with_line_feed
               (handle_node lib (extension_handlers lib [RemarkParse, TableAndStrikethrough])
                  plain_options (root nodes))) \<and>
   (t \<noteq> ''inlineCode'' \<longrightarrow>
      handler_for lib exts (annotate_options lib) t = handler_for lib exts plain_options t) \<and>
   (\<not> has_type ''inlineCode'' tree \<longrightarrow>
      handle_node lib exts (annotate_options lib) tree = handle_node lib exts plain_options tree)"
proof -
  have ap: "annotate_processor lib
      = [RemarkParse, TableAndStrikethrough, RemarkStringify (annotate_options lib)]"
    by (simp add: annotate_processor_def baseProcessor_def use_def unified_def)
  have sp: "stringify_processor = [RemarkParse, TableAndStrikethrough, RemarkStringify plain_options]"
    by (simp add: stringify_processor_def baseProcessor_def use_def unified_def)
  have pa: "parser_plugins (annotate_processor lib) = [RemarkParse, TableAndStrikethrough]"
    and ps: "parser_plugins stringify_processor = [RemarkParse, TableAndStrikethrough]"
    unfolding ap sp by (simp_all add: parser_plugins_def)
  have oa: "stringify_options_of (annotate_processor lib) = Some (annotate_options lib)"
    and os: "stringify_options_of stringify_processor = Some plain_options"
    unfolding ap sp by simp_all
  have opts: "fences (annotate_options lib) = True" "fences plain_options = True"
    "emphasis (annotate_options lib) = ''*''" "emphasis plain_options = ''*''"
    "handlers (annotate_options lib) = [(''inlineCode'', wrapInlineCode lib)]"
    "handlers plain_options = []"
    by (simp_all add: annotate_options_def plain_options_def)
  have an: "annotateCode lib md
     = Some (end_with_line_feed
               (specified_rendering lib
                  (extension_handlers lib [RemarkParse, TableAndStrikethrough])
                  (md_parse lib [RemarkParse, TableAndStrikethrough] md)))"
    by (simp add: annotateCode_def processSync_def stringify_def toMarkdown_def oa pa
          handle_node_annotate)
  have st: "stringifyMd lib nodes
     = Some (end_with_line_feed
               (handle_node lib (extension_handlers lib [RemarkParse, TableAndStrikethrough])
                  plain_options (root nodes)))"
    by (simp add: stringifyMd_def stringify_def toMarkdown_def os ps)
  from pa ps oa os opts an st handle_node_annotate handler_for_annotate_other
    handle_node_without_inlineCode
  show ?thesis by blast
qed

text \<open>
  Claim C7 at an example: a paragraph that holds a text and an inline-code node, and a
  paragraph with struck-through text.
\<close>

theorem annotateCode_wraps_every_inline_code_witness:
  "''delete'' \<noteq> ''inlineCode'' \<and>
   handler_for example_lib (extension_handlers example_lib [RemarkParse, TableAndStrikethrough])
       (annotate_options example_lib) ''delete''
     = handler_for example_lib (extension_handlers example_lib [RemarkParse, TableAndStrikethrough])
         plain_options ''delete'' \<and>
   \<not> has_type ''inlineCode'' (Node ''paragraph'' [] [Node ''delete'' [] [Node ''text'' ''old'' []]]) \<and>
   handle_node example_lib (extension_handlers example_lib [RemarkParse, TableAndStrikethrough])
       (annotate_options example_lib)
       (Node ''paragraph'' [] [Node ''delete'' [] [Node ''text'' ''old'' []]]) = ''~~old~~'' \<and>
   annotateCode example_lib ''Use `x`''
     = Some (''Use <notranslate>`x`</notranslate>'' @ [CHR 0x0A]) \<and>
   annotateCode example_lib ''Use it'' = Some (''Use it'' @ [CHR 0x0A]) \<and>
   stringifyMd example_lib
       [Node ''paragraph'' [] [Node ''text'' ''Use '' [], Node ''inlineCode'' ''x'' []]]
     = Some (''Use `x`'' @ [CHR 0x0A])"
proof -
  let ?tree = "Node ''paragraph'' [] [Node ''delete'' [] [Node ''text'' ''old'' []]]"
  let ?code = "Node ''paragraph'' [] [Node ''text'' ''Use '' [], Node ''inlineCode'' ''x'' []]"
  let ?exts = "extension_handlers example_lib [RemarkParse, TableAndStrikethrough]"
  note T = annotateCode_wraps_every_inline_code[of example_lib ?exts ?tree _ "[?code]" "''delete''"]
  have n: "''delete'' \<noteq> ''inlineCode''" by simp
  have ht: "\<not> has_type ''inlineCode'' ?tree" by simp
  have plain: "handle_node example_lib ?exts plain_options ?tree = ''~~old~~''"
    by (simp add: handler_for_def plain_options_def example_lib_def)
  have rootp: "end_with_line_feed (handle_node example_lib ?exts plain_options (root [?code]))
      = ''Use `x`'' @ [CHR 0x0A]"
    by (simp add: handler_for_def plain_options_def example_lib_def root_def
          end_with_line_feed_def)
  have parsed: "end_with_line_feed (specified_rendering example_lib ?exts
      (md_parse example_lib [RemarkParse, TableAndStrikethrough] ''Use `x`''))
      = ''Use <notranslate>`x`</notranslate>'' @ [CHR 0x0A]"
    by (simp add: handler_for_def plain_options_def example_lib_def end_with_line_feed_def)
  have parsed2: "end_with_line_feed (specified_rendering example_lib ?exts
      (md_parse example_lib [RemarkParse, TableAndStrikethrough] ''Use it''))
      = ''Use it'' @ [CHR 0x0A]"
    by (simp add: handler_for_def plain_options_def example_lib_def end_with_line_feed_def)
  from T n have a: "handler_for example_lib ?exts (annotate_options example_lib) ''delete''
     = handler_for example_lib ?exts plain_options ''delete''" by blast
  from T ht have b: "handle_node example_lib ?exts (annotate_options example_lib) ?tree
     = handle_node example_lib ?exts plain_options ?tree" by blast
  from T[of "''Use `x`''"] have d: "annotateCode example_lib ''Use `x`''
     = Some (end_with_line_feed (specified_rendering example_lib ?exts
               (md_parse example_lib [RemarkParse, TableAndStrikethrough] ''Use `x`'')))"
    by blast
  from T[of "''Use it''"] have d2: "annotateCode example_lib ''Use it''
     = Some (end_with_line_feed (specified_rendering example_lib ?exts
               (md_parse example_lib [RemarkParse, TableAndStrikethrough] ''Use it'')))"
    by blast
  from T[of "''Use it''"] have e: "stringifyMd example_lib [?code]
     = Some (end_with_line_feed (handle_node example_lib ?exts plain_options (root [?code])))"
    by blast
  from n ht a b d d2 e plain rootp parsed parsed2 show ?thesis by simp
qed

end
